theory Spec2Isabelle
  imports Main "HOL-Library.Word"
begin

unbundle bit_operations_syntax

section \<open>Memory, pointers and sizes\<close>

text \<open>
  The views of \<^verbatim>\<open>glow/Support/ADT.h\<close> are a pointer and a length over a buffer
  owned elsewhere. The embedding makes the buffer explicit: a memory maps
  addresses to the elements stored there, a pointer is an address, and pointer
  arithmetic counts in elements. \<^verbatim>\<open>size_t\<close> is a 64-bit unsigned word, so
  \<open>-\<close> and \<open>+\<close> on lengths wrap as they do in the source. \<^verbatim>\<open>char\<close> is a byte.
\<close>

type_synonym size_t = "64 word"
type_synonym addr = nat
type_synonym 'a elems = "addr \<Rightarrow> 'a"
type_synonym memory = "char elems"

definition nullptr :: addr where
  "nullptr = 0"

text \<open>
  A failed \<^verbatim>\<open>assert\<close> aborts the program in a checked build; the model returns
  it as an error value that carries the message of the assertion.
\<close>

datatype error = AssertionFailed string

section \<open>ArrayRef\<close>

text \<open>The private members \<^verbatim>\<open>data_\<close> and \<^verbatim>\<open>length_\<close>.\<close>

record ArrayRef =
  data_fld :: addr
  length_fld :: size_t

definition ArrayRef_ptr_len :: "addr \<Rightarrow> size_t \<Rightarrow> ArrayRef" where
  \<comment> \<open>\<^verbatim>\<open>ArrayRef(const T *data, size_t length)\<close>\<close>
  "ArrayRef_ptr_len d l = \<lparr>data_fld = d, length_fld = l\<rparr>"

definition ArrayRef_data :: "ArrayRef \<Rightarrow> addr" where
  "ArrayRef_data v = data_fld v"

definition ArrayRef_size :: "ArrayRef \<Rightarrow> size_t" where
  "ArrayRef_size v = length_fld v"

definition ArrayRef_begin :: "ArrayRef \<Rightarrow> addr" where
  "ArrayRef_begin v = data_fld v"

definition ArrayRef_end :: "ArrayRef \<Rightarrow> addr" where
  "ArrayRef_end v = data_fld v + unat (length_fld v)"

definition ArrayRef_vec :: "'a elems \<Rightarrow> ArrayRef \<Rightarrow> 'a list" where
  \<comment> \<open>\<^verbatim>\<open>std::vector<T>(begin(), end())\<close>: the elements the view refers to, in order\<close>
  "ArrayRef_vec m v = map m [ArrayRef_begin v ..< ArrayRef_end v]"

definition ArrayRef_drop_front :: "ArrayRef \<Rightarrow> error + ArrayRef" where
  "ArrayRef_drop_front v =
     (if ArrayRef_size v \<ge> 1
      then Inr (ArrayRef_ptr_len (ArrayRef_data v + 1) (ArrayRef_size v - 1))
      else Inl (AssertionFailed ''Array is empty''))"

text \<open>
  \<^verbatim>\<open>ArrayRef<T> drop_back(size_t N = 1) const\<close>: the body of the source does not
  mention \<^verbatim>\<open>N\<close>, and neither does the model.
\<close>

definition ArrayRef_drop_back :: "ArrayRef \<Rightarrow> size_t \<Rightarrow> error + ArrayRef" where
  "ArrayRef_drop_back v N =
     (if ArrayRef_size v \<ge> 1
      then Inr (ArrayRef_ptr_len (ArrayRef_data v) (ArrayRef_size v - 1))
      else Inl (AssertionFailed ''Array is empty''))"

subsection \<open>MutableArrayRef\<close>

text \<open>
  A \<^verbatim>\<open>MutableArrayRef\<close> is an \<^verbatim>\<open>ArrayRef\<close> (public inheritance) with the same two
  fields; its \<^verbatim>\<open>slice\<close> and \<^verbatim>\<open>drop_back\<close> are the sibling of
  \<^verbatim>\<open>ArrayRef::drop_back\<close>.
\<close>

definition MutableArrayRef_slice :: "ArrayRef \<Rightarrow> size_t \<Rightarrow> size_t \<Rightarrow> error + ArrayRef" where
  "MutableArrayRef_slice v N M =
     (if N + M \<le> ArrayRef_size v
      then Inr (ArrayRef_ptr_len (ArrayRef_data v + unat N) M)
      else Inl (AssertionFailed ''Invalid specifier''))"

definition MutableArrayRef_drop_back :: "ArrayRef \<Rightarrow> size_t \<Rightarrow> error + ArrayRef" where
  "MutableArrayRef_drop_back v N =
     (if ArrayRef_size v \<ge> N
      then MutableArrayRef_slice v 0 (ArrayRef_size v - N)
      else Inl (AssertionFailed ''Dropping more elements than exist''))"

section \<open>StringRef\<close>

record StringRef =
  Data :: addr
  Length :: size_t

definition npos :: size_t where
  \<comment> \<open>\<^verbatim>\<open>~size_t(0)\<close>\<close>
  "npos = NOT 0"

subsection \<open>The C library functions the class calls\<close>

text \<open>
  \<^verbatim>\<open>memcmp\<close>, \<^verbatim>\<open>memchr\<close> and \<^verbatim>\<open>strlen\<close> come from the C library. They are
  modelled after the C standard: \<^verbatim>\<open>memcmp\<close> compares bytes as unsigned values
  and its result has the sign of the difference of the first pair of bytes
  that differ (the model returns that difference); \<^verbatim>\<open>memchr\<close> returns a pointer
  to the first of \<open>n\<close> bytes that equals \<open>c\<close>, or null, here \<open>None\<close>;
  \<^verbatim>\<open>strlen\<close> scans for the terminating zero byte and has no result when there
  is none, nor on a null pointer.
\<close>

fun memcmp :: "memory \<Rightarrow> addr \<Rightarrow> addr \<Rightarrow> nat \<Rightarrow> int" where
  "memcmp m p q 0 = 0"
| "memcmp m p q (Suc n) =
     (if m p \<noteq> m q then int (of_char (m p)) - int (of_char (m q))
      else memcmp m (Suc p) (Suc q) n)"

fun memchr :: "memory \<Rightarrow> addr \<Rightarrow> char \<Rightarrow> nat \<Rightarrow> addr option" where
  "memchr m p c 0 = None"
| "memchr m p c (Suc n) = (if m p = c then Some p else memchr m (Suc p) c n)"

partial_function (option) strlen_scan :: "memory \<Rightarrow> addr \<Rightarrow> nat \<Rightarrow> nat option" where
  "strlen_scan m p n =
     (if m (p + n) = CHR 0x00 then Some n else strlen_scan m p (Suc n))"

declare strlen_scan.simps [code]

definition strlen :: "memory \<Rightarrow> addr \<Rightarrow> size_t option" where
  "strlen m p =
     (if p = nullptr then None else map_option of_nat (strlen_scan m p 0))"

fun std_copy :: "'a elems \<Rightarrow> addr \<Rightarrow> nat \<Rightarrow> addr \<Rightarrow> 'a elems" where
  \<comment> \<open>\<^verbatim>\<open>std::copy(first, first + n, dest)\<close>: element by element, front to back\<close>
  "std_copy m first 0 dest = m"
| "std_copy m first (Suc n) dest = std_copy (m(dest := m first)) (Suc first) n (Suc dest)"

subsection \<open>Construction and accessors\<close>

definition compareMemory :: "memory \<Rightarrow> addr \<Rightarrow> addr \<Rightarrow> size_t \<Rightarrow> int" where
  "compareMemory m Lhs Rhs Len = (if Len = 0 then 0 else memcmp m Lhs Rhs (unat Len))"

definition StringRef_default :: StringRef where
  \<comment> \<open>\<^verbatim>\<open>StringRef() = default\<close>, with the member initialisers\<close>
  "StringRef_default = \<lparr>Data = nullptr, Length = 0\<rparr>"

definition StringRef_cstr :: "memory \<Rightarrow> addr \<Rightarrow> StringRef option" where
  \<comment> \<open>\<^verbatim>\<open>StringRef(const char *Str)\<close>; \<open>None\<close> when \<^verbatim>\<open>strlen\<close> has no result\<close>
  "StringRef_cstr m Str =
     (if Str \<noteq> nullptr
      then (case strlen m Str of None \<Rightarrow> None | Some l \<Rightarrow> Some \<lparr>Data = Str, Length = l\<rparr>)
      else Some \<lparr>Data = Str, Length = 0\<rparr>)"

definition StringRef_ptr_len :: "addr \<Rightarrow> size_t \<Rightarrow> StringRef" where
  \<comment> \<open>\<^verbatim>\<open>StringRef(const char *data, size_t length)\<close>\<close>
  "StringRef_ptr_len d l = \<lparr>Data = d, Length = l\<rparr>"

definition StringRef_begin :: "StringRef \<Rightarrow> addr" where
  "StringRef_begin v = Data v"

definition StringRef_end :: "StringRef \<Rightarrow> addr" where
  "StringRef_end v = Data v + unat (Length v)"

definition StringRef_bytes :: "memory \<Rightarrow> StringRef \<Rightarrow> char list" where
  \<comment> \<open>what iterating \<^verbatim>\<open>bytes()\<close>, the range from \<^verbatim>\<open>begin()\<close> to \<^verbatim>\<open>end()\<close>, yields\<close>
  "StringRef_bytes m v = map m [StringRef_begin v ..< StringRef_end v]"

definition StringRef_data :: "StringRef \<Rightarrow> addr" where
  "StringRef_data v = Data v"

definition StringRef_empty :: "StringRef \<Rightarrow> bool" where
  "StringRef_empty v = (Length v = 0)"

definition StringRef_size :: "StringRef \<Rightarrow> size_t" where
  "StringRef_size v = Length v"

definition StringRef_index :: "memory \<Rightarrow> StringRef \<Rightarrow> size_t \<Rightarrow> error + char" where
  \<comment> \<open>\<^verbatim>\<open>operator[]\<close>\<close>
  "StringRef_index m v Index =
     (if Index < Length v then Inr (m (Data v + unat Index))
      else Inl (AssertionFailed ''Invalid index!''))"

subsection \<open>Comparison\<close>

definition StringRef_equals :: "memory \<Rightarrow> StringRef \<Rightarrow> StringRef \<Rightarrow> bool" where
  "StringRef_equals m v RHS =
     (Length v = Length RHS \<and> compareMemory m (Data v) (Data RHS) (Length RHS) = 0)"

definition StringRef_compare :: "memory \<Rightarrow> StringRef \<Rightarrow> StringRef \<Rightarrow> int" where
  "StringRef_compare m v RHS =
     (let Res = compareMemory m (Data v) (Data RHS) (min (Length v) (Length RHS))
      in if Res \<noteq> 0 then (if Res < 0 then - 1 else 1)
         else if Length v = Length RHS then 0
         else if Length v < Length RHS then - 1 else 1)"

definition StringRef_startswith :: "memory \<Rightarrow> StringRef \<Rightarrow> StringRef \<Rightarrow> bool" where
  "StringRef_startswith m v Prefix =
     (Length v \<ge> Length Prefix \<and>
      compareMemory m (Data v) (Data Prefix) (Length Prefix) = 0)"

definition StringRef_endswith :: "memory \<Rightarrow> StringRef \<Rightarrow> StringRef \<Rightarrow> bool" where
  "StringRef_endswith m v Suffix =
     (Length v \<ge> Length Suffix \<and>
      compareMemory m (StringRef_end v - unat (Length Suffix)) (Data Suffix) (Length Suffix) = 0)"

subsection \<open>Searching\<close>

definition StringRef_find :: "memory \<Rightarrow> StringRef \<Rightarrow> char \<Rightarrow> size_t \<Rightarrow> size_t" where
  "StringRef_find m v C From =
     (let FindBegin = min From (Length v)
      in if FindBegin < Length v
         then (case memchr m (Data v + unat FindBegin) C (unat (Length v - FindBegin)) of
                 Some P \<Rightarrow> of_nat (P - Data v)
               | None \<Rightarrow> npos)
         else npos)"

function rfind_loop :: "memory \<Rightarrow> StringRef \<Rightarrow> char \<Rightarrow> size_t \<Rightarrow> size_t" where
  "rfind_loop m v C i =
     (if i \<noteq> 0
      then (if m (Data v + unat (i - 1)) = C then i - 1 else rfind_loop m v C (i - 1))
      else npos)"
  by pat_completeness auto
termination
  by (relation "measure (\<lambda>(m, v, C, i). unat i)") (auto simp: measure_unat)

declare rfind_loop.simps [simp del]

definition StringRef_rfind :: "memory \<Rightarrow> StringRef \<Rightarrow> char \<Rightarrow> size_t \<Rightarrow> size_t" where
  "StringRef_rfind m v C From = rfind_loop m v C (min From (Length v))"

subsection \<open>Sub-views\<close>

definition StringRef_substr :: "StringRef \<Rightarrow> size_t \<Rightarrow> size_t \<Rightarrow> StringRef" where
  "StringRef_substr v Start N =
     (let Start' = min Start (Length v)
      in StringRef_ptr_len (Data v + unat Start') (min N (Length v - Start')))"

definition StringRef_slice :: "StringRef \<Rightarrow> size_t \<Rightarrow> size_t \<Rightarrow> StringRef" where
  "StringRef_slice v Start End =
     (let Start' = min Start (Length v);
          End' = min (max Start' End) (Length v)
      in StringRef_ptr_len (Data v + unat Start') (End' - Start'))"

definition StringRef_drop_front :: "StringRef \<Rightarrow> size_t \<Rightarrow> error + StringRef" where
  "StringRef_drop_front v N =
     (if StringRef_size v \<ge> N then Inr (StringRef_substr v N npos)
      else Inl (AssertionFailed ''Dropping more elements than exist''))"

definition StringRef_drop_back :: "StringRef \<Rightarrow> size_t \<Rightarrow> error + StringRef" where
  "StringRef_drop_back v N =
     (if StringRef_size v \<ge> N then Inr (StringRef_substr v 0 (StringRef_size v - N))
      else Inl (AssertionFailed ''Dropping more elements than exist''))"

definition StringRef_take_front :: "StringRef \<Rightarrow> size_t \<Rightarrow> error + StringRef" where
  "StringRef_take_front v N =
     (if N \<ge> StringRef_size v then Inr v
      else StringRef_drop_back v (StringRef_size v - N))"

definition StringRef_take_back :: "StringRef \<Rightarrow> size_t \<Rightarrow> error + StringRef" where
  "StringRef_take_back v N =
     (if N \<ge> StringRef_size v then Inr v
      else StringRef_drop_front v (StringRef_size v - N))"

text \<open>
  \<^verbatim>\<open>consume_front\<close> and \<^verbatim>\<open>consume_back\<close> assign to \<^verbatim>\<open>*this\<close>: the model takes
  the view and returns the result together with the view afterwards.
\<close>

definition StringRef_consume_front ::
  "memory \<Rightarrow> StringRef \<Rightarrow> StringRef \<Rightarrow> error + (bool \<times> StringRef)" where
  "StringRef_consume_front m v Prefix =
     (if \<not> StringRef_startswith m v Prefix then Inr (False, v)
      else (case StringRef_drop_front v (StringRef_size Prefix) of
              Inl e \<Rightarrow> Inl e
            | Inr v' \<Rightarrow> Inr (True, v')))"

definition StringRef_consume_back ::
  "memory \<Rightarrow> StringRef \<Rightarrow> StringRef \<Rightarrow> error + (bool \<times> StringRef)" where
  "StringRef_consume_back m v Suffix =
     (if \<not> StringRef_endswith m v Suffix then Inr (False, v)
      else (case StringRef_drop_back v (StringRef_size Suffix) of
              Inl e \<Rightarrow> Inl e
            | Inr v' \<Rightarrow> Inr (True, v')))"

definition StringRef_split :: "memory \<Rightarrow> StringRef \<Rightarrow> char \<Rightarrow> StringRef \<times> StringRef" where
  "StringRef_split m v Separator =
     (let Idx = StringRef_find m v Separator 0
      in if Idx = npos then (v, StringRef_default)
         else (StringRef_slice v 0 Idx, StringRef_slice v (Idx + 1) npos))"

subsection \<open>Copying into an allocator\<close>

text \<open>
  \<^verbatim>\<open>copy\<close> is a template over the allocator, which the caller supplies. The
  model takes it as a parameter: \<open>Allocate a n\<close> is the call
  \<^verbatim>\<open>A.Allocate<char>(n)\<close> on the allocator in state \<open>a\<close> and returns the pointer
  to the block and the allocator afterwards. The result of \<^verbatim>\<open>copy\<close> is the
  returned view, the memory and the allocator afterwards.
\<close>

definition StringRef_copy ::
  "('al \<Rightarrow> size_t \<Rightarrow> addr \<times> 'al) \<Rightarrow> 'al \<Rightarrow> memory \<Rightarrow> StringRef \<Rightarrow> StringRef \<times> memory \<times> 'al" where
  "StringRef_copy Allocate a m v =
     (if StringRef_empty v then (StringRef_default, m, a)
      else (let (S, a') = Allocate a (Length v);
                m' = std_copy m (StringRef_begin v) (StringRef_end v - StringRef_begin v) S
            in (StringRef_ptr_len S (Length v), m', a')))"

subsection \<open>Memories holding string literals\<close>

text \<open>
  \<open>memory_of base s\<close> holds the bytes of \<open>s\<close> from address \<open>base\<close> on and zero
  bytes everywhere else. \<open>literal_memory\<close> holds the literals of the examples,
  each followed by its terminator: \<^verbatim>\<open>"hello world"\<close> at 10, \<^verbatim>\<open>"hello"\<close> at 22,
  \<^verbatim>\<open>"world"\<close> at 28, \<^verbatim>\<open>"ab"\<close> at 34, \<^verbatim>\<open>"abc"\<close> at 37, \<^verbatim>\<open>"b"\<close> at 41 and
  \<^verbatim>\<open>"x"\<close> at 43.
\<close>

definition memory_of :: "addr \<Rightarrow> string \<Rightarrow> memory" where
  "memory_of base s =
     (\<lambda>a. if base \<le> a \<and> a < base + length s then s ! (a - base) else CHR 0x00)"

definition literal_memory :: memory where
  "literal_memory =
     memory_of 10 (''hello world'' @ [CHR 0x00] @ ''hello'' @ [CHR 0x00] @ ''world'' @ [CHR 0x00]
       @ ''ab'' @ [CHR 0x00] @ ''abc'' @ [CHR 0x00] @ ''b'' @ [CHR 0x00] @ ''x'' @ [CHR 0x00])"

text \<open>
  An allocator for the examples: its state is the next free address, and
  \<^verbatim>\<open>Allocate<char>(n)\<close> hands out the block that starts there and moves the next
  free address behind it.
\<close>

definition bump_Allocate :: "addr \<Rightarrow> size_t \<Rightarrow> addr \<times> addr" where
  "bump_Allocate free n = (free, free + unat n)"

section \<open>Properties\<close>

subsection \<open>The bytes of a view and of its sub-views\<close>

lemma bytes_upt: "StringRef_bytes m v = map (\<lambda>i. m (Data v + i)) [0..<unat (Length v)]"
proof -
  have "[Data v ..< Data v + unat (Length v)] = map (\<lambda>i. i + Data v) [0..<unat (Length v)]"
    by (simp add: map_add_upt add.commute)
  then show ?thesis
    by (simp add: StringRef_bytes_def StringRef_begin_def StringRef_end_def o_def add.commute)
qed

lemma length_bytes: "length (StringRef_bytes m v) = unat (Length v)"
  by (simp add: bytes_upt)

lemma unat_min: "unat (min (a::size_t) b) = min (unat a) (unat b)"
  by (simp add: min_def word_le_nat_alt)

lemma npos_max: "x \<le> npos"
  by (simp add: npos_def)

lemma unat_le_npos: "unat (x::size_t) \<le> unat npos"
  using npos_max [of x] by (simp add: word_le_nat_alt)

lemma substr_Length: "unat (Length (StringRef_substr v Start N)) =
    min (unat N) (unat (Length v) - min (unat Start) (unat (Length v)))"
  by (simp add: StringRef_substr_def StringRef_ptr_len_def Let_def unat_min unat_sub)

lemma substr_Data: "Data (StringRef_substr v Start N) = Data v + min (unat Start) (unat (Length v))"
  by (simp add: StringRef_substr_def StringRef_ptr_len_def Let_def unat_min)

lemma substr_bytes: "StringRef_bytes m (StringRef_substr v Start N) =
    take (unat N) (drop (unat Start) (StringRef_bytes m v))"
proof (rule nth_equalityI)
  show "length (StringRef_bytes m (StringRef_substr v Start N)) =
      length (take (unat N) (drop (unat Start) (StringRef_bytes m v)))"
    by (simp add: length_bytes substr_Length)
next
  fix i
  assume "i < length (StringRef_bytes m (StringRef_substr v Start N))"
  then have i: "i < unat N" "i < unat (Length v) - min (unat Start) (unat (Length v))"
    by (simp_all add: length_bytes substr_Length)
  then have s: "unat Start < unat (Length v)" "unat Start + i < unat (Length v)"
    by arith+
  from i s show "StringRef_bytes m (StringRef_substr v Start N) ! i =
      take (unat N) (drop (unat Start) (StringRef_bytes m v)) ! i"
    by (simp add: bytes_upt substr_Length substr_Data min_def add.assoc)
qed

lemma drop_front_ok:
  assumes "N \<le> Length v"
  shows "\<exists>v'. StringRef_drop_front v N = Inr v' \<and> Data v' = Data v + unat N \<and>
    unat (Length v') = unat (Length v) - unat N \<and>
    StringRef_bytes m v' = drop (unat N) (StringRef_bytes m v)"
proof -
  from assms have le: "unat N \<le> unat (Length v)" by (simp add: word_le_nat_alt)
  have "unat (Length v) - unat N \<le> unat npos"
    using unat_le_npos [of "Length v"] by arith
  with le assms show ?thesis
    using unat_le_npos [of "Length v"]
    by (simp add: StringRef_drop_front_def StringRef_size_def substr_Length substr_Data
        substr_bytes length_bytes min_def)
qed

lemma drop_back_ok:
  assumes "N \<le> Length v"
  shows "\<exists>v'. StringRef_drop_back v N = Inr v' \<and> Data v' = Data v \<and>
    unat (Length v') = unat (Length v) - unat N \<and>
    StringRef_bytes m v' = take (unat (Length v) - unat N) (StringRef_bytes m v)"
proof -
  from assms have le: "unat N \<le> unat (Length v)" by (simp add: word_le_nat_alt)
  with assms show ?thesis
    by (simp add: StringRef_drop_back_def StringRef_size_def substr_Length substr_Data
        substr_bytes length_bytes unat_sub)
qed

subsection \<open>substr clamps its arguments\<close>

text \<open>
  C6. \<^verbatim>\<open>substr(Start, N)\<close> has no failing path: the model returns a view for
  every view and all arguments. The view begins at the start clamped to the
  length, its length is the minimum of \<open>N\<close> and what remains after the clamped
  start (computed without wrap-around), it lies inside the original view, and
  its bytes are the bytes of the original from \<open>Start\<close> on, at most \<open>N\<close> of
  them: none when \<open>Start\<close> is out of range.
\<close>

theorem StringRef_substr_clamps:
  "Data (StringRef_substr v Start N) = Data v + unat (min Start (Length v)) \<and>
   Length (StringRef_substr v Start N) = min N (Length v - min Start (Length v)) \<and>
   unat (Length (StringRef_substr v Start N)) =
     min (unat N) (unat (Length v) - min (unat Start) (unat (Length v))) \<and>
   StringRef_begin v \<le> StringRef_begin (StringRef_substr v Start N) \<and>
   StringRef_end (StringRef_substr v Start N) \<le> StringRef_end v \<and>
   StringRef_bytes m (StringRef_substr v Start N) =
     take (unat N) (drop (unat Start) (StringRef_bytes m v))"
proof (intro conjI)
  show "Data (StringRef_substr v Start N) = Data v + unat (min Start (Length v))"
    by (simp add: substr_Data unat_min)
  show "Length (StringRef_substr v Start N) = min N (Length v - min Start (Length v))"
    by (simp add: StringRef_substr_def StringRef_ptr_len_def Let_def)
  show "unat (Length (StringRef_substr v Start N)) =
      min (unat N) (unat (Length v) - min (unat Start) (unat (Length v)))"
    by (rule substr_Length)
  show "StringRef_begin v \<le> StringRef_begin (StringRef_substr v Start N)"
    by (simp add: StringRef_begin_def substr_Data)
  show "StringRef_end (StringRef_substr v Start N) \<le> StringRef_end v"
    by (simp add: StringRef_end_def substr_Data substr_Length)
  show "StringRef_bytes m (StringRef_substr v Start N) =
      take (unat N) (drop (unat Start) (StringRef_bytes m v))"
    by (rule substr_bytes)
qed

subsection \<open>consume_front and consume_back\<close>

text \<open>
  C2. \<^verbatim>\<open>consume_front(Prefix)\<close> returns true exactly when \<^verbatim>\<open>startswith(Prefix)\<close>
  held beforehand, and the view afterwards then starts \<^verbatim>\<open>Prefix.size()\<close> bytes
  later and is shorter by exactly that many bytes; otherwise it returns false
  and the view afterwards is the view before, pointer and length. The same
  holds for \<^verbatim>\<open>consume_back(Suffix)\<close> and \<^verbatim>\<open>endswith(Suffix)\<close>, where the pointer
  stays and the bytes are dropped from the back. No assertion fails on either
  path.
\<close>

theorem StringRef_consume_front_back:
  "(StringRef_startswith m v p \<longrightarrow>
      (\<exists>v'. StringRef_consume_front m v p = Inr (True, v') \<and>
            Data v' = Data v + unat (Length p) \<and>
            unat (Length v') + unat (Length p) = unat (Length v) \<and>
            StringRef_bytes m v' = drop (unat (Length p)) (StringRef_bytes m v))) \<and>
   (\<not> StringRef_startswith m v p \<longrightarrow> StringRef_consume_front m v p = Inr (False, v)) \<and>
   (StringRef_endswith m v s \<longrightarrow>
      (\<exists>v'. StringRef_consume_back m v s = Inr (True, v') \<and>
            Data v' = Data v \<and>
            unat (Length v') + unat (Length s) = unat (Length v) \<and>
            StringRef_bytes m v' =
              take (unat (Length v) - unat (Length s)) (StringRef_bytes m v))) \<and>
   (\<not> StringRef_endswith m v s \<longrightarrow> StringRef_consume_back m v s = Inr (False, v))"
proof (intro conjI impI)
  assume sw: "StringRef_startswith m v p"
  then have le: "Length p \<le> Length v" by (simp add: StringRef_startswith_def)
  then have "unat (Length p) \<le> unat (Length v)" by (simp add: word_le_nat_alt)
  with drop_front_ok [OF le, of m] sw
  show "\<exists>v'. StringRef_consume_front m v p = Inr (True, v') \<and>
      Data v' = Data v + unat (Length p) \<and>
      unat (Length v') + unat (Length p) = unat (Length v) \<and>
      StringRef_bytes m v' = drop (unat (Length p)) (StringRef_bytes m v)"
    by (auto simp: StringRef_consume_front_def StringRef_size_def)
next
  assume "\<not> StringRef_startswith m v p"
  then show "StringRef_consume_front m v p = Inr (False, v)"
    by (simp add: StringRef_consume_front_def)
next
  assume ew: "StringRef_endswith m v s"
  then have le: "Length s \<le> Length v" by (simp add: StringRef_endswith_def)
  then have "unat (Length s) \<le> unat (Length v)" by (simp add: word_le_nat_alt)
  with drop_back_ok [OF le, of m] ew
  show "\<exists>v'. StringRef_consume_back m v s = Inr (True, v') \<and>
      Data v' = Data v \<and>
      unat (Length v') + unat (Length s) = unat (Length v) \<and>
      StringRef_bytes m v' = take (unat (Length v) - unat (Length s)) (StringRef_bytes m v)"
    by (auto simp: StringRef_consume_back_def StringRef_size_def)
next
  assume "\<not> StringRef_endswith m v s"
  then show "StringRef_consume_back m v s = Inr (False, v)"
    by (simp add: StringRef_consume_back_def)
qed

text \<open>
  On \<^verbatim>\<open>"hello world"\<close>: \<^verbatim>\<open>consume_front("hello")\<close> and \<^verbatim>\<open>consume_back("world")\<close>
  succeed and leave \<^verbatim>\<open>" world"\<close> and \<^verbatim>\<open>"hello "\<close>; \<^verbatim>\<open>consume_front("world")\<close>
  and \<^verbatim>\<open>consume_back("hello")\<close> fail and leave the view as it was.
\<close>

theorem StringRef_consume_front_back_witness:
  "StringRef_startswith literal_memory \<lparr>Data = 10, Length = 11\<rparr> \<lparr>Data = 22, Length = 5\<rparr> \<and>
   StringRef_consume_front literal_memory \<lparr>Data = 10, Length = 11\<rparr> \<lparr>Data = 22, Length = 5\<rparr>
     = Inr (True, \<lparr>Data = 15, Length = 6\<rparr>) \<and>
   StringRef_bytes literal_memory \<lparr>Data = 15, Length = 6\<rparr> = '' world'' \<and>
   StringRef_endswith literal_memory \<lparr>Data = 10, Length = 11\<rparr> \<lparr>Data = 28, Length = 5\<rparr> \<and>
   StringRef_consume_back literal_memory \<lparr>Data = 10, Length = 11\<rparr> \<lparr>Data = 28, Length = 5\<rparr>
     = Inr (True, \<lparr>Data = 10, Length = 6\<rparr>) \<and>
   \<not> StringRef_startswith literal_memory \<lparr>Data = 10, Length = 11\<rparr> \<lparr>Data = 28, Length = 5\<rparr> \<and>
   StringRef_consume_front literal_memory \<lparr>Data = 10, Length = 11\<rparr> \<lparr>Data = 28, Length = 5\<rparr>
     = Inr (False, \<lparr>Data = 10, Length = 11\<rparr>) \<and>
   \<not> StringRef_endswith literal_memory \<lparr>Data = 10, Length = 11\<rparr> \<lparr>Data = 22, Length = 5\<rparr> \<and>
   StringRef_consume_back literal_memory \<lparr>Data = 10, Length = 11\<rparr> \<lparr>Data = 22, Length = 5\<rparr>
     = Inr (False, \<lparr>Data = 10, Length = 11\<rparr>)"
proof -
  let ?v = "\<lparr>Data = 10, Length = 11\<rparr>"
  let ?hello = "\<lparr>Data = 22, Length = 5\<rparr>"
  let ?world = "\<lparr>Data = 28, Length = 5\<rparr>"
  have sw: "StringRef_startswith literal_memory ?v ?hello" by code_simp
  have ew: "StringRef_endswith literal_memory ?v ?world" by code_simp
  have nsw: "\<not> StringRef_startswith literal_memory ?v ?world" by code_simp
  have new: "\<not> StringRef_endswith literal_memory ?v ?hello" by code_simp
  from StringRef_consume_front_back [of literal_memory ?v ?hello ?world] sw ew
  obtain f b where
    f: "StringRef_consume_front literal_memory ?v ?hello = Inr (True, f)"
       "Data f = 10 + unat (5 :: size_t)" "unat (Length f) + unat (5 :: size_t) = unat (11 :: size_t)"
    and b: "StringRef_consume_back literal_memory ?v ?world = Inr (True, b)"
       "Data b = 10" "unat (Length b) + unat (5 :: size_t) = unat (11 :: size_t)"
    by auto
  from f(3) have "unat (Length f) = unat (6 :: size_t)" by simp
  then have "Length f = 6" by (simp only: word_unat_eq_iff)
  with f(2) have f': "f = \<lparr>Data = 15, Length = 6\<rparr>" by simp
  from b(3) have "unat (Length b) = unat (6 :: size_t)" by simp
  then have "Length b = 6" by (simp only: word_unat_eq_iff)
  with b(2) have b': "b = \<lparr>Data = 10, Length = 6\<rparr>" by simp
  have bs: "StringRef_bytes literal_memory \<lparr>Data = 15, Length = 6\<rparr> = '' world''"
    by code_simp
  from StringRef_consume_front_back [of literal_memory ?v ?world ?hello] nsw new
  have "StringRef_consume_front literal_memory ?v ?world = Inr (False, ?v)"
    "StringRef_consume_back literal_memory ?v ?hello = Inr (False, ?v)"
    by simp_all
  with sw ew nsw new f(1) b(1) f' b' bs show ?thesis by simp
qed

subsection \<open>ArrayRef::drop_back\<close>

text \<open>
  C1. \<^verbatim>\<open>ArrayRef::drop_back(N)\<close> is declared with a count but asserts
  \<^verbatim>\<open>size() >= 1\<close> and always drops one element. On the view of the three
  elements 100, 101, 102 (a memory that holds at each address the address
  itself), \<^verbatim>\<open>drop_back(2)\<close> meets \<^verbatim>\<open>size() >= 2\<close> and returns the first two
  elements, not the first one; \<^verbatim>\<open>MutableArrayRef::drop_back(2)\<close> returns the
  first one. On the empty view \<^verbatim>\<open>drop_back(0)\<close> meets \<^verbatim>\<open>size() >= 0\<close> and fails
  the assertion, where \<^verbatim>\<open>MutableArrayRef::drop_back(0)\<close> returns the empty view.
\<close>

theorem ArrayRef_drop_back_ignores_count:
  "ArrayRef_vec (\<lambda>a. a) \<lparr>data_fld = 100, length_fld = 3\<rparr> = [100, 101, 102] \<and>
   (2 :: size_t) \<le> ArrayRef_size \<lparr>data_fld = 100, length_fld = 3\<rparr> \<and>
   ArrayRef_drop_back \<lparr>data_fld = 100, length_fld = 3\<rparr> 2
     = Inr \<lparr>data_fld = 100, length_fld = 2\<rparr> \<and>
   ArrayRef_vec (\<lambda>a. a) \<lparr>data_fld = 100, length_fld = 2\<rparr> = [100, 101] \<and>
   MutableArrayRef_drop_back \<lparr>data_fld = 100, length_fld = 3\<rparr> 2
     = Inr \<lparr>data_fld = 100, length_fld = 1\<rparr> \<and>
   ArrayRef_drop_back \<lparr>data_fld = 0, length_fld = 0\<rparr> 0
     = Inl (AssertionFailed ''Array is empty'') \<and>
   MutableArrayRef_drop_back \<lparr>data_fld = 0, length_fld = 0\<rparr> 0
     = Inr \<lparr>data_fld = 0, length_fld = 0\<rparr>"
  by code_simp

subsection \<open>take_front and drop_front\<close>

lemma take_front_ok:
  assumes "n \<le> Length s"
  shows "\<exists>t. StringRef_take_front s n = Inr t \<and>
    StringRef_bytes m t = take (unat n) (StringRef_bytes m s)"
proof (cases "n = Length s")
  case True
  then show ?thesis
    by (simp add: StringRef_take_front_def StringRef_size_def length_bytes)
next
  case False
  with assms have lt: "n < Length s" by simp
  then have nge: "\<not> Length s \<le> n" by simp
  from assms have un: "unat n \<le> unat (Length s)" by (simp add: word_le_nat_alt)
  from assms have le: "Length s - n \<le> Length s" by (rule word_sub_le)
  from assms have "unat (Length s - n) = unat (Length s) - unat n" by (rule unat_sub)
  with un have "unat (Length s) - unat (Length s - n) = unat n" by simp
  with drop_back_ok [OF le, of m] nge show ?thesis
    by (auto simp: StringRef_take_front_def StringRef_size_def)
qed

text \<open>
  C5. For every count \<open>n\<close> up to the size of the view, \<^verbatim>\<open>take_front(n)\<close> and
  \<^verbatim>\<open>drop_front(n)\<close> both return (no assertion fails) and the bytes of the first
  followed by the bytes of the second are the bytes of the view. For
  \<open>n\<close> at least the size, \<^verbatim>\<open>take_front(n)\<close> and \<^verbatim>\<open>take_back(n)\<close> return the view
  itself.
\<close>

theorem StringRef_take_drop_front:
  "(n \<le> StringRef_size s \<longrightarrow>
      (\<exists>t d. StringRef_take_front s n = Inr t \<and> StringRef_drop_front s n = Inr d \<and>
             StringRef_bytes m t @ StringRef_bytes m d = StringRef_bytes m s)) \<and>
   (StringRef_size s \<le> n \<longrightarrow>
      StringRef_take_front s n = Inr s \<and> StringRef_take_back s n = Inr s)"
proof (intro conjI impI)
  assume "n \<le> StringRef_size s"
  then have le: "n \<le> Length s" by (simp add: StringRef_size_def)
  from take_front_ok [OF le, of m] obtain t where
    t: "StringRef_take_front s n = Inr t" "StringRef_bytes m t = take (unat n) (StringRef_bytes m s)"
    by blast
  from drop_front_ok [OF le, of m] obtain d where
    d: "StringRef_drop_front s n = Inr d" "StringRef_bytes m d = drop (unat n) (StringRef_bytes m s)"
    by blast
  from t d show "\<exists>t d. StringRef_take_front s n = Inr t \<and> StringRef_drop_front s n = Inr d \<and>
      StringRef_bytes m t @ StringRef_bytes m d = StringRef_bytes m s"
    by simp
next
  assume "StringRef_size s \<le> n"
  then show "StringRef_take_front s n = Inr s" "StringRef_take_back s n = Inr s"
    by (simp_all add: StringRef_take_front_def StringRef_take_back_def)
qed

text \<open>On \<^verbatim>\<open>"hello world"\<close> with \<open>n = 5\<close>, and with \<open>n = 20\<close> beyond its size.\<close>

theorem StringRef_take_drop_front_witness:
  "(5 :: size_t) \<le> StringRef_size \<lparr>Data = 10, Length = 11\<rparr> \<and>
   StringRef_take_front \<lparr>Data = 10, Length = 11\<rparr> 5 = Inr \<lparr>Data = 10, Length = 5\<rparr> \<and>
   StringRef_drop_front \<lparr>Data = 10, Length = 11\<rparr> 5 = Inr \<lparr>Data = 15, Length = 6\<rparr> \<and>
   StringRef_bytes literal_memory \<lparr>Data = 10, Length = 5\<rparr> @
     StringRef_bytes literal_memory \<lparr>Data = 15, Length = 6\<rparr> = ''hello world'' \<and>
   StringRef_size \<lparr>Data = 10, Length = 11\<rparr> \<le> 20 \<and>
   StringRef_take_front \<lparr>Data = 10, Length = 11\<rparr> 20 = Inr \<lparr>Data = 10, Length = 11\<rparr> \<and>
   StringRef_take_back \<lparr>Data = 10, Length = 11\<rparr> 20 = Inr \<lparr>Data = 10, Length = 11\<rparr>"
proof -
  let ?s = "\<lparr>Data = 10, Length = 11\<rparr>"
  have t: "StringRef_take_front ?s 5 = Inr \<lparr>Data = 10, Length = 5\<rparr>" by code_simp
  have d: "StringRef_drop_front ?s 5 = Inr \<lparr>Data = 15, Length = 6\<rparr>" by code_simp
  have b: "StringRef_bytes literal_memory ?s = ''hello world''" by code_simp
  have h1: "(5 :: size_t) \<le> StringRef_size ?s" by (simp add: StringRef_size_def)
  have h2: "StringRef_size ?s \<le> 20" by (simp add: StringRef_size_def)
  from StringRef_take_drop_front [of 5 ?s literal_memory] h1 t d b
  have "StringRef_bytes literal_memory \<lparr>Data = 10, Length = 5\<rparr> @
     StringRef_bytes literal_memory \<lparr>Data = 15, Length = 6\<rparr> = ''hello world''"
    by simp
  moreover from StringRef_take_drop_front [of 20 ?s literal_memory] h2
  have "StringRef_take_front ?s 20 = Inr ?s \<and> StringRef_take_back ?s 20 = Inr ?s"
    by simp
  ultimately show ?thesis using h1 h2 t d by simp
qed

subsection \<open>Comparing byte ranges\<close>

lemma memcmp_eq_0_iff: "memcmp m p q n = 0 \<longleftrightarrow> (\<forall>i<n. m (p + i) = m (q + i))"
proof (induction n arbitrary: p q)
  case 0
  show ?case by simp
next
  case (Suc n)
  show ?case
  proof (cases "m p = m q")
    case True
    have "(\<forall>i<Suc n. m (p + i) = m (q + i)) \<longleftrightarrow> (\<forall>i<n. m (Suc p + i) = m (Suc q + i))"
      using True by (auto simp: less_Suc_eq_0_disj)
    with True Suc show ?thesis by simp
  next
    case False
    then have "\<not> (\<forall>i<Suc n. m (p + i) = m (q + i))"
      by (auto intro: exI [of _ 0])
    with False show ?thesis by simp
  qed
qed

lemma memcmp_first_diff:
  "i < n \<Longrightarrow> \<forall>j<i. m (p + j) = m (q + j) \<Longrightarrow> m (p + i) \<noteq> m (q + i) \<Longrightarrow>
   memcmp m p q n = int (of_char (m (p + i))) - int (of_char (m (q + i)))"
proof (induction n arbitrary: p q i)
  case 0
  then show ?case by simp
next
  case (Suc n)
  show ?case
  proof (cases i)
    case 0
    with Suc.prems show ?thesis by simp
  next
    case (Suc k)
    with Suc.prems have eq: "m p = m q" by (auto dest: spec [of _ 0])
    from Suc Suc.prems have "k < n" "\<forall>j<k. m (Suc p + j) = m (Suc q + j)"
      "m (Suc p + k) \<noteq> m (Suc q + k)"
      by (auto dest: spec [of _ "Suc _"])
    from Suc.IH [OF this] eq Suc show ?thesis by simp
  qed
qed

lemma compareMemory_eq_0_iff:
  "compareMemory m p q n = 0 \<longleftrightarrow> (\<forall>i<unat n. m (p + i) = m (q + i))"
  by (simp add: compareMemory_def memcmp_eq_0_iff unat_eq_0)

lemma compareMemory_first_diff:
  assumes "i < unat n" "\<forall>j<i. m (p + j) = m (q + j)" "m (p + i) \<noteq> m (q + i)"
  shows "compareMemory m p q n = int (of_char (m (p + i))) - int (of_char (m (q + i)))"
proof -
  from assms(1) have "n \<noteq> 0" by (auto simp: unat_eq_0)
  with memcmp_first_diff [OF assms] show ?thesis by (simp add: compareMemory_def)
qed

lemma compare_eq_0_iff:
  "StringRef_compare m a b = 0 \<longleftrightarrow>
   Length a = Length b \<and> compareMemory m (Data a) (Data b) (min (Length a) (Length b)) = 0"
  by (simp add: StringRef_compare_def Let_def)

lemma equals_iff_bytes:
  "StringRef_equals m a b \<longleftrightarrow> StringRef_bytes m a = StringRef_bytes m b"
proof
  assume "StringRef_equals m a b"
  then show "StringRef_bytes m a = StringRef_bytes m b"
    by (auto simp: StringRef_equals_def compareMemory_eq_0_iff bytes_upt)
next
  assume eq: "StringRef_bytes m a = StringRef_bytes m b"
  then have "length (StringRef_bytes m a) = length (StringRef_bytes m b)" by simp
  then have l: "Length a = Length b" by (simp add: length_bytes word_unat_eq_iff)
  have "\<forall>i<unat (Length b). m (Data a + i) = m (Data b + i)"
  proof (intro allI impI)
    fix i assume i: "i < unat (Length b)"
    from eq have "StringRef_bytes m a ! i = StringRef_bytes m b ! i" by simp
    with i l show "m (Data a + i) = m (Data b + i)" by (simp add: bytes_upt)
  qed
  with l show "StringRef_equals m a b"
    by (simp add: StringRef_equals_def compareMemory_eq_0_iff)
qed

subsection \<open>equals\<close>

text \<open>
  C9. \<^verbatim>\<open>equals\<close> is reflexive and symmetric, \<^verbatim>\<open>a.equals(b)\<close> holds exactly
  when \<^verbatim>\<open>a.compare(b)\<close> is 0, and views of different sizes are never equal
  (the length test comes first in the conjunction of the source).
\<close>

theorem StringRef_equals_equivalence:
  "StringRef_equals m s s \<and>
   (StringRef_equals m a b \<longleftrightarrow> StringRef_equals m b a) \<and>
   (StringRef_equals m a b \<longleftrightarrow> StringRef_compare m a b = 0) \<and>
   (StringRef_size a \<noteq> StringRef_size b \<longrightarrow> \<not> StringRef_equals m a b)"
proof (intro conjI)
  show "StringRef_equals m s s"
    by (simp add: StringRef_equals_def compareMemory_eq_0_iff)
  show "StringRef_equals m a b \<longleftrightarrow> StringRef_equals m b a"
    by (auto simp: StringRef_equals_def compareMemory_eq_0_iff)
  show "StringRef_equals m a b \<longleftrightarrow> StringRef_compare m a b = 0"
    by (auto simp: StringRef_equals_def compare_eq_0_iff)
  show "StringRef_size a \<noteq> StringRef_size b \<longrightarrow> \<not> StringRef_equals m a b"
    by (simp add: StringRef_equals_def StringRef_size_def)
qed

text \<open>
  \<^verbatim>\<open>"ab"\<close> and \<^verbatim>\<open>"abc"\<close> differ in size and are not equal; the first five bytes of
  \<^verbatim>\<open>"hello world"\<close> and the literal \<^verbatim>\<open>"hello"\<close> are equal, both ways round, and
  compare as 0.
\<close>

theorem StringRef_equals_equivalence_witness:
  "StringRef_size \<lparr>Data = 34, Length = 2\<rparr> \<noteq> StringRef_size \<lparr>Data = 37, Length = 3\<rparr> \<and>
   \<not> StringRef_equals literal_memory \<lparr>Data = 34, Length = 2\<rparr> \<lparr>Data = 37, Length = 3\<rparr> \<and>
   StringRef_compare literal_memory \<lparr>Data = 34, Length = 2\<rparr> \<lparr>Data = 37, Length = 3\<rparr> \<noteq> 0 \<and>
   StringRef_equals literal_memory \<lparr>Data = 10, Length = 5\<rparr> \<lparr>Data = 22, Length = 5\<rparr> \<and>
   StringRef_equals literal_memory \<lparr>Data = 22, Length = 5\<rparr> \<lparr>Data = 10, Length = 5\<rparr> \<and>
   StringRef_compare literal_memory \<lparr>Data = 10, Length = 5\<rparr> \<lparr>Data = 22, Length = 5\<rparr> = 0"
proof -
  let ?ab = "\<lparr>Data = 34, Length = 2\<rparr>"
  let ?abc = "\<lparr>Data = 37, Length = 3\<rparr>"
  let ?h1 = "\<lparr>Data = 10, Length = 5\<rparr>"
  let ?h2 = "\<lparr>Data = 22, Length = 5\<rparr>"
  have ne: "StringRef_size ?ab \<noteq> StringRef_size ?abc" by (simp add: StringRef_size_def)
  have eq: "StringRef_equals literal_memory ?h1 ?h2" by code_simp
  from StringRef_equals_equivalence [of literal_memory ?ab ?ab ?abc] ne
  have "\<not> StringRef_equals literal_memory ?ab ?abc"
    "StringRef_compare literal_memory ?ab ?abc \<noteq> 0"
    by blast+
  moreover from StringRef_equals_equivalence [of literal_memory ?h1 ?h1 ?h2] eq
  have "StringRef_equals literal_memory ?h2 ?h1"
    "StringRef_compare literal_memory ?h1 ?h2 = 0"
    by blast+
  ultimately show ?thesis using ne eq by simp
qed

subsection \<open>compare\<close>

lemma bytes_nth: "i < unat (Length v) \<Longrightarrow> StringRef_bytes m v ! i = m (Data v + i)"
  by (simp add: bytes_upt)

lemma compare_prefix_differs:
  assumes i: "i < unat (Length a)" "i < unat (Length b)"
    and eq: "\<forall>j<i. m (Data a + j) = m (Data b + j)"
    and ne: "m (Data a + i) \<noteq> m (Data b + i)"
  shows "StringRef_compare m a b =
    (if (of_char (m (Data a + i)) :: nat) < of_char (m (Data b + i)) then - 1 else 1)"
proof -
  from i have "i < unat (min (Length a) (Length b))" by (simp add: unat_min)
  from compareMemory_first_diff [OF this eq ne]
  have d: "compareMemory m (Data a) (Data b) (min (Length a) (Length b)) =
      int (of_char (m (Data a + i))) - int (of_char (m (Data b + i)))" .
  from ne have "(of_char (m (Data a + i)) :: nat) \<noteq> of_char (m (Data b + i))" by simp
  with d show ?thesis by (auto simp: StringRef_compare_def Let_def)
qed

lemma compare_prefix_equal:
  assumes "\<forall>j<min (unat (Length a)) (unat (Length b)). m (Data a + j) = m (Data b + j)"
  shows "StringRef_compare m a b =
    (if unat (Length a) = unat (Length b) then 0
     else if unat (Length a) < unat (Length b) then - 1 else 1)"
proof -
  from assms have "compareMemory m (Data a) (Data b) (min (Length a) (Length b)) = 0"
    by (simp add: compareMemory_eq_0_iff unat_min)
  then show ?thesis
    by (simp add: StringRef_compare_def word_unat_eq_iff word_less_nat_alt)
qed

lemma compare_general:
  "(let xs = StringRef_bytes m a; ys = StringRef_bytes m b;
        n = min (length xs) (length ys)
    in (take n xs \<noteq> take n ys \<longrightarrow>
          (\<exists>i<n. take i xs = take i ys \<and> xs ! i \<noteq> ys ! i \<and>
             StringRef_compare m a b =
               (if (of_char (xs ! i) :: nat) < of_char (ys ! i) then - 1 else 1))) \<and>
       (take n xs = take n ys \<longrightarrow>
          StringRef_compare m a b =
            (if length xs = length ys then 0
             else if length xs < length ys then - 1 else 1)))"
proof -
  define xs where "xs = StringRef_bytes m a"
  define ys where "ys = StringRef_bytes m b"
  define n where "n = min (length xs) (length ys)"
  have lx: "length xs = unat (Length a)" and ly: "length ys = unat (Length b)"
    by (simp_all add: xs_def ys_def length_bytes)
  have nx: "\<And>j. j < n \<Longrightarrow> xs ! j = m (Data a + j)"
    and ny: "\<And>j. j < n \<Longrightarrow> ys ! j = m (Data b + j)"
    using lx ly by (simp_all add: n_def xs_def ys_def bytes_nth)
  have A: "\<exists>i<n. take i xs = take i ys \<and> xs ! i \<noteq> ys ! i \<and>
      StringRef_compare m a b = (if (of_char (xs ! i) :: nat) < of_char (ys ! i) then - 1 else 1)"
    if ne: "take n xs \<noteq> take n ys"
  proof -
    have "\<exists>j<n. xs ! j \<noteq> ys ! j"
    proof (rule ccontr)
      assume "\<not> (\<exists>j<n. xs ! j \<noteq> ys ! j)"
      then have "take n xs = take n ys"
        by (intro nth_equalityI) (simp_all add: n_def)
      with ne show False by contradiction
    qed
    then obtain j where j: "j < n \<and> xs ! j \<noteq> ys ! j" by blast
    define i where "i = (LEAST j. j < n \<and> xs ! j \<noteq> ys ! j)"
    from j have i: "i < n \<and> xs ! i \<noteq> ys ! i"
      unfolding i_def by (rule LeastI)
    have below: "xs ! k = ys ! k" if "k < i" for k
    proof -
      from that have "\<not> (k < n \<and> xs ! k \<noteq> ys ! k)"
        unfolding i_def by (rule not_less_Least)
      with that i show ?thesis by simp
    qed
    from i have il: "i < length xs" "i < length ys" by (simp_all add: n_def)
    have tk: "take i xs = take i ys"
      using il below by (intro nth_equalityI) simp_all
    have "\<forall>k<i. m (Data a + k) = m (Data b + k)"
      using below i nx ny by (metis less_trans)
    moreover from i nx [of i] ny [of i] have "m (Data a + i) \<noteq> m (Data b + i)" by auto
    ultimately have "StringRef_compare m a b =
        (if (of_char (m (Data a + i)) :: nat) < of_char (m (Data b + i)) then - 1 else 1)"
      using il lx ly by (intro compare_prefix_differs) simp_all
    with i nx [of i] ny [of i] tk show ?thesis by (intro exI [of _ i]) auto
  qed
  have B: "StringRef_compare m a b =
      (if length xs = length ys then 0 else if length xs < length ys then - 1 else 1)"
    if eq: "take n xs = take n ys"
  proof -
    have "\<forall>j<n. m (Data a + j) = m (Data b + j)"
    proof (intro allI impI)
      fix j assume j: "j < n"
      from eq have "take n xs ! j = take n ys ! j" by simp
      with j nx ny show "m (Data a + j) = m (Data b + j)" by simp
    qed
    then show ?thesis
      using compare_prefix_equal [of a b m] lx ly by (simp add: n_def)
  qed
  from A B show ?thesis
    unfolding Let_def xs_def [symmetric] ys_def [symmetric] n_def [symmetric] by blast
qed

lemma compare_examples:
  "StringRef_cstr literal_memory 34 = Some \<lparr>Data = 34, Length = 2\<rparr>"
  "StringRef_bytes literal_memory \<lparr>Data = 34, Length = 2\<rparr> = ''ab''"
  "StringRef_cstr literal_memory 37 = Some \<lparr>Data = 37, Length = 3\<rparr>"
  "StringRef_bytes literal_memory \<lparr>Data = 37, Length = 3\<rparr> = ''abc''"
  "StringRef_cstr literal_memory 41 = Some \<lparr>Data = 41, Length = 1\<rparr>"
  "StringRef_bytes literal_memory \<lparr>Data = 41, Length = 1\<rparr> = ''b''"
  "StringRef_cstr literal_memory 43 = Some \<lparr>Data = 43, Length = 1\<rparr>"
  "StringRef_bytes literal_memory \<lparr>Data = 43, Length = 1\<rparr> = ''x''"
  "StringRef_compare literal_memory \<lparr>Data = 34, Length = 2\<rparr> \<lparr>Data = 37, Length = 3\<rparr> = - 1"
  "StringRef_compare literal_memory \<lparr>Data = 41, Length = 1\<rparr> \<lparr>Data = 34, Length = 2\<rparr> = 1"
  "StringRef_compare literal_memory \<lparr>Data = 43, Length = 1\<rparr> \<lparr>Data = 43, Length = 1\<rparr> = 0"
  by code_simp+

text \<open>
  C3. \<^verbatim>\<open>a.compare(b)\<close> looks at the common prefix, of the length \<open>n\<close> of the
  shorter view. Where the two prefixes differ there is a first index at which
  the bytes differ, and the result is \<open>-1\<close> when the byte of \<open>a\<close> there is the
  smaller one as an unsigned value, \<open>1\<close> otherwise. Where they are equal the
  result is 0 for equal lengths, \<open>-1\<close> when \<open>a\<close> is shorter and \<open>1\<close> when it is
  longer. With the views that the constructor from a C string makes of the
  literals: \<^verbatim>\<open>compare("ab","abc") == -1\<close>, \<^verbatim>\<open>compare("b","ab") == 1\<close> and
  \<^verbatim>\<open>compare("x","x") == 0\<close>.
\<close>

theorem StringRef_compare_lexicographic:
  "(let xs = StringRef_bytes m a; ys = StringRef_bytes m b;
        n = min (length xs) (length ys)
    in (take n xs \<noteq> take n ys \<longrightarrow>
          (\<exists>i<n. take i xs = take i ys \<and> xs ! i \<noteq> ys ! i \<and>
             StringRef_compare m a b =
               (if (of_char (xs ! i) :: nat) < of_char (ys ! i) then - 1 else 1))) \<and>
       (take n xs = take n ys \<longrightarrow>
          StringRef_compare m a b =
            (if length xs = length ys then 0
             else if length xs < length ys then - 1 else 1))) \<and>
   StringRef_cstr literal_memory 34 = Some \<lparr>Data = 34, Length = 2\<rparr> \<and>
   StringRef_bytes literal_memory \<lparr>Data = 34, Length = 2\<rparr> = ''ab'' \<and>
   StringRef_cstr literal_memory 37 = Some \<lparr>Data = 37, Length = 3\<rparr> \<and>
   StringRef_bytes literal_memory \<lparr>Data = 37, Length = 3\<rparr> = ''abc'' \<and>
   StringRef_cstr literal_memory 41 = Some \<lparr>Data = 41, Length = 1\<rparr> \<and>
   StringRef_bytes literal_memory \<lparr>Data = 41, Length = 1\<rparr> = ''b'' \<and>
   StringRef_cstr literal_memory 43 = Some \<lparr>Data = 43, Length = 1\<rparr> \<and>
   StringRef_bytes literal_memory \<lparr>Data = 43, Length = 1\<rparr> = ''x'' \<and>
   StringRef_compare literal_memory \<lparr>Data = 34, Length = 2\<rparr> \<lparr>Data = 37, Length = 3\<rparr> = - 1 \<and>
   StringRef_compare literal_memory \<lparr>Data = 41, Length = 1\<rparr> \<lparr>Data = 34, Length = 2\<rparr> = 1 \<and>
   StringRef_compare literal_memory \<lparr>Data = 43, Length = 1\<rparr> \<lparr>Data = 43, Length = 1\<rparr> = 0"
  by (intro conjI compare_general compare_examples)

text \<open>
  The pair \<^verbatim>\<open>"ab"\<close>, \<^verbatim>\<open>"abc"\<close> has equal prefixes and is decided by the lengths;
  the pair \<^verbatim>\<open>"b"\<close>, \<^verbatim>\<open>"ab"\<close> differs at index 0.
\<close>

theorem StringRef_compare_lexicographic_witness:
  "take (min (length ''ab'') (length ''abc'')) ''ab'' =
     take (min (length ''ab'') (length ''abc'')) ''abc'' \<and>
   StringRef_compare literal_memory \<lparr>Data = 34, Length = 2\<rparr> \<lparr>Data = 37, Length = 3\<rparr> = - 1 \<and>
   take (min (length ''b'') (length ''ab'')) ''b'' \<noteq>
     take (min (length ''b'') (length ''ab'')) ''ab'' \<and>
   StringRef_compare literal_memory \<lparr>Data = 41, Length = 1\<rparr> \<lparr>Data = 34, Length = 2\<rparr> = 1"
proof -
  let ?ab = "\<lparr>Data = 34, Length = 2\<rparr>"
  let ?abc = "\<lparr>Data = 37, Length = 3\<rparr>"
  let ?b = "\<lparr>Data = 41, Length = 1\<rparr>"
  have ab: "StringRef_bytes literal_memory ?ab = ''ab''"
    and abc: "StringRef_bytes literal_memory ?abc = ''abc''"
    and b: "StringRef_bytes literal_memory ?b = ''b''"
    by code_simp+
  have h1: "take (min (length ''ab'') (length ''abc'')) ''ab'' =
      take (min (length ''ab'') (length ''abc'')) ''abc''" by simp
  have h2: "take (min (length ''b'') (length ''ab'')) ''b'' \<noteq>
      take (min (length ''b'') (length ''ab'')) ''ab''" by simp
  note g1 = conjunct1 [OF StringRef_compare_lexicographic [of literal_memory ?ab ?abc],
      unfolded Let_def ab abc]
  from g1 h1 have c1: "StringRef_compare literal_memory ?ab ?abc = - 1" by simp
  note g2 = conjunct1 [OF StringRef_compare_lexicographic [of literal_memory ?b ?ab],
      unfolded Let_def ab b]
  from g2 h2 obtain i where "i < min (length ''b'') (length ''ab'')"
    and c: "StringRef_compare literal_memory ?b ?ab =
      (if (of_char (''b'' ! i) :: nat) < of_char (''ab'' ! i) then - 1 else 1)"
    by blast
  then have "i = 0" by simp
  with c have c2: "StringRef_compare literal_memory ?b ?ab = 1" by simp
  from h1 c1 h2 c2 show ?thesis by blast
qed

subsection \<open>find and rfind\<close>

lemma memchr_None_iff: "memchr m p c n = None \<longleftrightarrow> (\<forall>i<n. m (p + i) \<noteq> c)"
proof (induction n arbitrary: p)
  case 0
  show ?case by simp
next
  case (Suc n)
  have "(\<forall>i<Suc n. m (p + i) \<noteq> c) \<longleftrightarrow> m p \<noteq> c \<and> (\<forall>i<n. m (Suc p + i) \<noteq> c)"
    by (auto simp: less_Suc_eq_0_disj)
  with Suc show ?case by simp
qed

lemma memchr_Some:
  "memchr m p c n = Some P \<Longrightarrow> \<exists>i<n. P = p + i \<and> m (p + i) = c \<and> (\<forall>j<i. m (p + j) \<noteq> c)"
proof (induction n arbitrary: p)
  case 0
  then show ?case by simp
next
  case (Suc n)
  show ?case
  proof (cases "m p = c")
    case True
    with Suc.prems show ?thesis by (auto intro: exI [of _ 0])
  next
    case False
    with Suc.prems have "memchr m (Suc p) c n = Some P" by simp
    from Suc.IH [OF this] obtain i where i: "i < n" "P = Suc p + i" "m (Suc p + i) = c"
      "\<forall>j<i. m (Suc p + j) \<noteq> c" by blast
    have "\<forall>j<Suc i. m (p + j) \<noteq> c"
      using False i(4) by (auto simp: less_Suc_eq_0_disj)
    with i show ?thesis by (intro exI [of _ "Suc i"]) simp
  qed
qed

lemma index_iff:
  "StringRef_index m v i = Inr C \<longleftrightarrow> i < Length v \<and> m (Data v + unat i) = C"
  by (simp add: StringRef_index_def)

lemma find_match_iff:
  "From \<le> i \<and> StringRef_index m v i = Inr C \<longleftrightarrow>
   unat From \<le> unat i \<and> unat i < unat (Length v) \<and> m (Data v + unat i) = C"
  by (auto simp: index_iff word_le_nat_alt word_less_nat_alt)

lemma find_out_of_range:
  "Length v \<le> From \<Longrightarrow> StringRef_find m v C From = npos"
  by (simp add: StringRef_find_def Let_def min_def)

lemma find_in_range:
  assumes "From < Length v"
  shows "StringRef_find m v C From =
    (case memchr m (Data v + unat From) C (unat (Length v) - unat From) of
       Some P \<Rightarrow> of_nat (P - Data v) | None \<Rightarrow> npos)"
proof -
  from assms have "From \<le> Length v" by simp
  then have "unat (Length v - From) = unat (Length v) - unat From" by (rule unat_sub)
  with assms show ?thesis by (simp add: StringRef_find_def Let_def min_def)
qed

lemma find_none:
  assumes "\<not> (\<exists>i. (From \<le> i \<and> StringRef_index m v i = Inr C))"
  shows "StringRef_find m v C From = npos"
proof (cases "From < Length v")
  case False
  then show ?thesis by (simp add: find_out_of_range)
next
  case True
  have "\<forall>k<unat (Length v) - unat From. m (Data v + unat From + k) \<noteq> C"
  proof (intro allI impI)
    fix k assume k: "k < unat (Length v) - unat From"
    then have "unat From + k \<le> unat (Length v)" by simp
    then have u: "unat (of_nat (unat From + k) :: size_t) = unat From + k"
      by (rule le_unat_uoi)
    from assms have "\<not> (From \<le> of_nat (unat From + k) \<and> StringRef_index m v (of_nat (unat From + k)) = Inr C)" by blast
    with u k show "m (Data v + unat From + k) \<noteq> C"
      by (simp add: find_match_iff add.assoc)
  qed
  then have "memchr m (Data v + unat From) C (unat (Length v) - unat From) = None"
    by (simp add: memchr_None_iff)
  with True show ?thesis by (simp add: find_in_range)
qed

lemma find_some:
  assumes "(From \<le> j \<and> StringRef_index m v j = Inr C)"
  shows "(From \<le> StringRef_find m v C From \<and> StringRef_index m v (StringRef_find m v C From) = Inr C) \<and>
    (\<forall>i. (From \<le> i \<and> StringRef_index m v i = Inr C) \<longrightarrow> StringRef_find m v C From \<le> i)"
proof -
  from assms have j: "unat From \<le> unat j" "unat j < unat (Length v)" "m (Data v + unat j) = C"
    by (simp_all add: find_match_iff)
  then have lt: "From < Length v" by (simp add: word_less_nat_alt)
  let ?n = "unat (Length v) - unat From"
  have "memchr m (Data v + unat From) C ?n \<noteq> None"
  proof
    assume "memchr m (Data v + unat From) C ?n = None"
    then have "\<forall>i<?n. m (Data v + unat From + i) \<noteq> C" by (simp add: memchr_None_iff)
    moreover from j have "unat j - unat From < ?n" by arith
    ultimately have "m (Data v + unat From + (unat j - unat From)) \<noteq> C" by blast
    with j show False by simp
  qed
  then obtain P where P: "memchr m (Data v + unat From) C ?n = Some P" by blast
  from memchr_Some [OF this] obtain k where k: "k < ?n" "P = Data v + unat From + k"
    "m (Data v + unat From + k) = C" "\<forall>i<k. m (Data v + unat From + i) \<noteq> C"
    by blast
  from lt P k(2) have r: "StringRef_find m v C From = of_nat (unat From + k)"
    by (simp add: find_in_range)
  from k(1) have "unat From + k \<le> unat (Length v)" by simp
  then have u: "unat (of_nat (unat From + k) :: size_t) = unat From + k"
    by (rule le_unat_uoi)
  have least: "unat From + k \<le> unat i" if "(From \<le> i \<and> StringRef_index m v i = Inr C)" for i
  proof (rule ccontr)
    assume "\<not> unat From + k \<le> unat i"
    moreover from that have i: "unat From \<le> unat i" "m (Data v + unat i) = C"
      by (simp_all add: find_match_iff)
    ultimately have "unat i - unat From < k" by arith
    with k(4) have "m (Data v + unat From + (unat i - unat From)) \<noteq> C" by blast
    with i show False by simp
  qed
  from k(1,3) u r have "(From \<le> StringRef_find m v C From \<and> StringRef_index m v (StringRef_find m v C From) = Inr C)"
    by (simp add: find_match_iff add.assoc)
  moreover from least u r have "\<forall>i. (From \<le> i \<and> StringRef_index m v i = Inr C) \<longrightarrow> StringRef_find m v C From \<le> i"
    by (simp add: word_le_nat_alt)
  ultimately show ?thesis by blast
qed


lemma word_pred_less: "i \<noteq> 0 \<Longrightarrow> i - 1 < (i :: size_t)"
  by (simp add: word_less_nat_alt measure_unat)

lemma word_less_pred: "j < i \<Longrightarrow> j \<noteq> i - 1 \<Longrightarrow> j < i - (1 :: size_t)"
proof -
  assume a: "j < i" "j \<noteq> i - 1"
  then have "i \<noteq> 0" by auto
  then have u: "unat (i - 1) = unat i - 1" by (rule unat_minus_one)
  from a(2) have "unat j \<noteq> unat (i - 1)" by (simp add: word_unat_eq_iff)
  with a(1) u show ?thesis by (simp add: word_less_nat_alt)
qed

lemma rfind_loop_none:
  "\<forall>j. j < i \<longrightarrow> m (Data v + unat j) \<noteq> C \<Longrightarrow> rfind_loop m v C i = npos"
proof (induction m v C i rule: rfind_loop.induct)
  case (1 m v C i)
  show ?case
  proof (cases "i = 0")
    case True
    then show ?thesis by (simp add: rfind_loop.simps)
  next
    case False
    then have lt: "i - 1 < i" by (rule word_pred_less)
    with "1.prems" have ne: "m (Data v + unat (i - 1)) \<noteq> C" by blast
    have "\<forall>j. j < i - 1 \<longrightarrow> m (Data v + unat j) \<noteq> C"
    proof (intro allI impI)
      fix j assume "j < i - 1"
      from this lt have "j < i" by (rule less_trans)
      with "1.prems" show "m (Data v + unat j) \<noteq> C" by blast
    qed
    with "1.IH" False ne have "rfind_loop m v C (i - 1) = npos" by blast
    with False ne show ?thesis by (simp add: rfind_loop.simps [of m v C i])
  qed
qed

lemma rfind_loop_some:
  "j < i \<Longrightarrow> m (Data v + unat j) = C \<Longrightarrow>
   rfind_loop m v C i < i \<and> m (Data v + unat (rfind_loop m v C i)) = C \<and>
   (\<forall>k. k < i \<and> m (Data v + unat k) = C \<longrightarrow> k \<le> rfind_loop m v C i)"
proof (induction m v C i rule: rfind_loop.induct)
  case (1 m v C i)
  from "1.prems" have nz: "i \<noteq> 0" by auto
  then have lt: "i - 1 < i" by (rule word_pred_less)
  show ?case
  proof (cases "m (Data v + unat (i - 1)) = C")
    case True
    with nz have r: "rfind_loop m v C i = i - 1" by (simp add: rfind_loop.simps [of m v C i])
    have "k \<le> i - 1" if "k < i" for k
      using that word_less_pred [of k i] by (cases "k = i - 1") simp_all
    with r lt True show ?thesis by simp
  next
    case False
    with nz have r: "rfind_loop m v C i = rfind_loop m v C (i - 1)"
      by (simp add: rfind_loop.simps [of m v C i])
    from False "1.prems" have "j \<noteq> i - 1" by auto
    with "1.prems" have "j < i - 1" by (simp add: word_less_pred)
    with "1.IH" nz False "1.prems" have ih:
      "rfind_loop m v C (i - 1) < i - 1"
      "m (Data v + unat (rfind_loop m v C (i - 1))) = C"
      "\<forall>k. k < i - 1 \<and> m (Data v + unat k) = C \<longrightarrow> k \<le> rfind_loop m v C (i - 1)"
      by blast+
    have "k \<le> rfind_loop m v C (i - 1)" if "k < i" "m (Data v + unat k) = C" for k
    proof -
      from that False have "k \<noteq> i - 1" by auto
      with that have "k < i - 1" by (simp add: word_less_pred)
      with ih(3) that show ?thesis by blast
    qed
    with r ih lt show ?thesis by (auto intro: less_trans)
  qed
qed


lemma index_in_bytes: "StringRef_index m v i = Inr C \<Longrightarrow> C \<in> set (StringRef_bytes m v)"
proof -
  assume "StringRef_index m v i = Inr C"
  then have "unat i < unat (Length v)" "m (Data v + unat i) = C"
    by (simp_all add: index_iff word_less_nat_alt)
  then have "StringRef_bytes m v ! unat i = C" "unat i < length (StringRef_bytes m v)"
    by (simp_all add: bytes_upt)
  then show ?thesis by (metis nth_mem)
qed

lemma index_npos: "StringRef_index m v npos = Inl (AssertionFailed ''Invalid index!'')"
proof -
  have "\<not> npos < Length v" using npos_max [of "Length v"] by simp
  then show ?thesis by (simp add: StringRef_index_def)
qed

lemma rfind_none:
  assumes "\<forall>i. i < min RFrom (StringRef_size v) \<longrightarrow> StringRef_index m v i \<noteq> Inr C"
  shows "StringRef_rfind m v C RFrom = npos"
proof -
  have "\<forall>j. j < min RFrom (Length v) \<longrightarrow> m (Data v + unat j) \<noteq> C"
    using assms by (auto simp: index_iff StringRef_size_def)
  then show ?thesis unfolding StringRef_rfind_def by (rule rfind_loop_none)
qed

lemma rfind_some:
  assumes "j < min RFrom (StringRef_size v)" "StringRef_index m v j = Inr C"
  shows "StringRef_rfind m v C RFrom < min RFrom (StringRef_size v) \<and>
    StringRef_index m v (StringRef_rfind m v C RFrom) = Inr C \<and>
    (\<forall>i. i < min RFrom (StringRef_size v) \<and> StringRef_index m v i = Inr C \<longrightarrow>
         i \<le> StringRef_rfind m v C RFrom)"
proof -
  from assms have "j < min RFrom (Length v)" "m (Data v + unat j) = C"
    by (simp_all add: index_iff StringRef_size_def)
  from rfind_loop_some [of j "min RFrom (Length v)" m v C, OF this]
  have r: "StringRef_rfind m v C RFrom < min RFrom (Length v)"
    "m (Data v + unat (StringRef_rfind m v C RFrom)) = C"
    "\<forall>k. k < min RFrom (Length v) \<and> m (Data v + unat k) = C \<longrightarrow> k \<le> StringRef_rfind m v C RFrom"
    unfolding StringRef_rfind_def by blast+
  from r(1) have "StringRef_rfind m v C RFrom < Length v" by simp
  with r show ?thesis by (simp add: index_iff StringRef_size_def)
qed

text \<open>
  C7. \<^verbatim>\<open>find(C, From)\<close>: when some index \<open>i \<ge> From\<close> has \<^verbatim>\<open>s[i] == C\<close>, the
  result is such an index and the smallest one; when there is none the result
  is \<^verbatim>\<open>npos\<close>, in particular for \<open>From\<close> at or beyond the size and on the
  empty view. \<^verbatim>\<open>rfind(C, RFrom)\<close>: when some index below
  \<open>min RFrom size\<close> has \<^verbatim>\<open>s[i] == C\<close>, the result is such an index and the
  largest one; when there is none the result is \<^verbatim>\<open>npos\<close>. Neither function
  has a failing path, and \<^verbatim>\<open>npos\<close> is never a valid index, so it cannot be
  taken for a match. \<^verbatim>\<open>s[i] == C\<close> is read through \<^verbatim>\<open>operator[]\<close>, whose
  assertion \<open>i < size\<close> then holds.
\<close>

theorem StringRef_find_rfind:
  "((\<exists>i. From \<le> i \<and> StringRef_index m v i = Inr C) \<longrightarrow>
      From \<le> StringRef_find m v C From \<and>
      StringRef_index m v (StringRef_find m v C From) = Inr C \<and>
      (\<forall>i. From \<le> i \<and> StringRef_index m v i = Inr C \<longrightarrow> StringRef_find m v C From \<le> i)) \<and>
   ((\<forall>i. From \<le> i \<longrightarrow> StringRef_index m v i \<noteq> Inr C) \<longrightarrow>
      StringRef_find m v C From = npos) \<and>
   (StringRef_size v \<le> From \<longrightarrow> StringRef_find m v C From = npos) \<and>
   (StringRef_empty v \<longrightarrow> StringRef_find m v C From = npos \<and> StringRef_rfind m v C RFrom = npos) \<and>
   ((\<exists>i. i < min RFrom (StringRef_size v) \<and> StringRef_index m v i = Inr C) \<longrightarrow>
      StringRef_rfind m v C RFrom < min RFrom (StringRef_size v) \<and>
      StringRef_index m v (StringRef_rfind m v C RFrom) = Inr C \<and>
      (\<forall>i. i < min RFrom (StringRef_size v) \<and> StringRef_index m v i = Inr C \<longrightarrow>
           i \<le> StringRef_rfind m v C RFrom)) \<and>
   ((\<forall>i. i < min RFrom (StringRef_size v) \<longrightarrow> StringRef_index m v i \<noteq> Inr C) \<longrightarrow>
      StringRef_rfind m v C RFrom = npos) \<and>
   StringRef_index m v npos = Inl (AssertionFailed ''Invalid index!'')"
proof (intro conjI impI)
  assume "\<exists>i. From \<le> i \<and> StringRef_index m v i = Inr C"
  then obtain j where "From \<le> j \<and> StringRef_index m v j = Inr C" ..
  from find_some [OF this]
  show "From \<le> StringRef_find m v C From"
    "StringRef_index m v (StringRef_find m v C From) = Inr C"
    "\<forall>i. From \<le> i \<and> StringRef_index m v i = Inr C \<longrightarrow> StringRef_find m v C From \<le> i"
    by blast+
next
  assume "\<forall>i. From \<le> i \<longrightarrow> StringRef_index m v i \<noteq> Inr C"
  then have "\<not> (\<exists>i. From \<le> i \<and> StringRef_index m v i = Inr C)" by blast
  then show "StringRef_find m v C From = npos" by (rule find_none)
next
  assume "StringRef_size v \<le> From"
  then show "StringRef_find m v C From = npos"
    by (simp add: StringRef_size_def find_out_of_range)
next
  assume e: "StringRef_empty v"
  then show "StringRef_find m v C From = npos"
    by (simp add: StringRef_empty_def find_out_of_range)
  from e show "StringRef_rfind m v C RFrom = npos"
    by (simp add: StringRef_empty_def StringRef_rfind_def rfind_loop.simps [of m v C 0])
next
  assume "\<exists>i. i < min RFrom (StringRef_size v) \<and> StringRef_index m v i = Inr C"
  then obtain j where "j < min RFrom (StringRef_size v)" "StringRef_index m v j = Inr C"
    by blast
  from rfind_some [OF this]
  show "StringRef_rfind m v C RFrom < min RFrom (StringRef_size v)"
    "StringRef_index m v (StringRef_rfind m v C RFrom) = Inr C"
    "\<forall>i. i < min RFrom (StringRef_size v) \<and> StringRef_index m v i = Inr C \<longrightarrow>
         i \<le> StringRef_rfind m v C RFrom"
    by blast+
next
  assume "\<forall>i. i < min RFrom (StringRef_size v) \<longrightarrow> StringRef_index m v i \<noteq> Inr C"
  then show "StringRef_rfind m v C RFrom = npos" by (rule rfind_none)
next
  show "StringRef_index m v npos = Inl (AssertionFailed ''Invalid index!'')"
    by (rule index_npos)
qed

text \<open>
  On \<^verbatim>\<open>"hello world"\<close>: \<^verbatim>\<open>find('o')\<close> is 4 and \<^verbatim>\<open>rfind('o')\<close> is 7; there is no
  \<^verbatim>\<open>'z'\<close>; \<^verbatim>\<open>find('o', 11)\<close> starts at the size; and the empty view.
\<close>

theorem StringRef_find_rfind_witness:
  "(0 \<le> (4 :: size_t) \<and>
      StringRef_index literal_memory \<lparr>Data = 10, Length = 11\<rparr> 4 = Inr CHR ''o'') \<and>
   StringRef_find literal_memory \<lparr>Data = 10, Length = 11\<rparr> CHR ''o'' 0 = 4 \<and>
   \<not> (\<exists>i. 0 \<le> i \<and> i < 4 \<and>
        StringRef_index literal_memory \<lparr>Data = 10, Length = 11\<rparr> i = Inr CHR ''o'') \<and>
   \<not> (\<exists>i. 0 \<le> i \<and>
        StringRef_index literal_memory \<lparr>Data = 10, Length = 11\<rparr> i = Inr CHR ''z'') \<and>
   StringRef_find literal_memory \<lparr>Data = 10, Length = 11\<rparr> CHR ''z'' 0 = npos \<and>
   StringRef_size \<lparr>Data = 10, Length = 11\<rparr> \<le> 11 \<and>
   StringRef_find literal_memory \<lparr>Data = 10, Length = 11\<rparr> CHR ''o'' 11 = npos \<and>
   StringRef_empty \<lparr>Data = 10, Length = 0\<rparr> \<and>
   StringRef_find literal_memory \<lparr>Data = 10, Length = 0\<rparr> CHR ''h'' 0 = npos \<and>
   StringRef_rfind literal_memory \<lparr>Data = 10, Length = 0\<rparr> CHR ''h'' npos = npos \<and>
   ((7 :: size_t) < min npos (StringRef_size \<lparr>Data = 10, Length = 11\<rparr>) \<and>
      StringRef_index literal_memory \<lparr>Data = 10, Length = 11\<rparr> 7 = Inr CHR ''o'') \<and>
   StringRef_rfind literal_memory \<lparr>Data = 10, Length = 11\<rparr> CHR ''o'' npos = 7 \<and>
   \<not> (\<exists>i. 7 < i \<and> i < min npos (StringRef_size \<lparr>Data = 10, Length = 11\<rparr>) \<and>
        StringRef_index literal_memory \<lparr>Data = 10, Length = 11\<rparr> i = Inr CHR ''o'') \<and>
   StringRef_rfind literal_memory \<lparr>Data = 10, Length = 11\<rparr> CHR ''z'' npos = npos"
proof -
  let ?v = "\<lparr>Data = 10, Length = 11\<rparr>"
  let ?e = "\<lparr>Data = 10, Length = 0\<rparr>"
  have bs: "StringRef_bytes literal_memory ?v = ''hello world''" by code_simp
  have i4: "0 \<le> (4 :: size_t) \<and> StringRef_index literal_memory ?v 4 = Inr CHR ''o''"
    by code_simp
  have f4: "StringRef_find literal_memory ?v CHR ''o'' 0 = 4" by code_simp
  have i7: "(7 :: size_t) < min npos (StringRef_size ?v) \<and>
      StringRef_index literal_memory ?v 7 = Inr CHR ''o''"
    by code_simp
  have r7: "StringRef_rfind literal_memory ?v CHR ''o'' npos = 7" by code_simp
  have nz: "StringRef_index literal_memory ?v i \<noteq> Inr CHR ''z''" for i
    using index_in_bytes [of literal_memory ?v i "CHR ''z''"] by (auto simp: bs)
  have sz: "StringRef_size ?v \<le> 11" by (simp add: StringRef_size_def)
  have em: "StringRef_empty ?e" by (simp add: StringRef_empty_def)
  note o = StringRef_find_rfind [where m = literal_memory and v = ?v and C = "CHR ''o''"
      and From = 0 and RFrom = npos]
  note z = StringRef_find_rfind [where m = literal_memory and v = ?v and C = "CHR ''z''"
      and From = 0 and RFrom = npos]
  note b = StringRef_find_rfind [where m = literal_memory and v = ?v and C = "CHR ''o''"
      and From = 11 and RFrom = npos]
  note e = StringRef_find_rfind [where m = literal_memory and v = ?e and C = "CHR ''h''"
      and From = 0 and RFrom = npos]
  from o i4 have "\<forall>i. 0 \<le> i \<and> StringRef_index literal_memory ?v i = Inr CHR ''o''
      \<longrightarrow> StringRef_find literal_memory ?v CHR ''o'' 0 \<le> i"
    by blast
  then have "\<forall>i. 0 \<le> i \<and> StringRef_index literal_memory ?v i = Inr CHR ''o'' \<longrightarrow> 4 \<le> i"
    by (simp only: f4)
  then have c1: "\<not> (\<exists>i. 0 \<le> i \<and> i < 4 \<and> StringRef_index literal_memory ?v i = Inr CHR ''o'')"
    by (metis not_less)
  from o i7 have "\<forall>i. i < min npos (StringRef_size ?v) \<and>
      StringRef_index literal_memory ?v i = Inr CHR ''o''
      \<longrightarrow> i \<le> StringRef_rfind literal_memory ?v CHR ''o'' npos"
    by blast
  then have "\<forall>i. i < min npos (StringRef_size ?v) \<and>
      StringRef_index literal_memory ?v i = Inr CHR ''o'' \<longrightarrow> i \<le> 7"
    by (simp only: r7)
  then have c2: "\<not> (\<exists>i. 7 < i \<and> i < min npos (StringRef_size ?v) \<and>
      StringRef_index literal_memory ?v i = Inr CHR ''o'')"
    by (metis not_less)
  from nz have nz': "\<not> (\<exists>i. 0 \<le> i \<and> StringRef_index literal_memory ?v i = Inr CHR ''z'')"
    by blast
  from z nz have c3: "StringRef_find literal_memory ?v CHR ''z'' 0 = npos"
    "StringRef_rfind literal_memory ?v CHR ''z'' npos = npos"
    by blast+
  from b sz have c4: "StringRef_find literal_memory ?v CHR ''o'' 11 = npos" by blast
  from e em have c5: "StringRef_find literal_memory ?e CHR ''h'' 0 = npos"
    "StringRef_rfind literal_memory ?e CHR ''h'' npos = npos"
    by blast+
  from i4 f4 c1 nz' c3 sz c4 em c5 i7 r7 c2 show ?thesis by blast
qed

subsection \<open>slice and split\<close>

lemma unat_max: "unat (max (a::size_t) b) = max (unat a) (unat b)"
  by (simp add: max_def word_le_nat_alt)

lemma slice_Data:
  "Data (StringRef_slice v Start End) = Data v + min (unat Start) (unat (Length v))"
  by (simp add: StringRef_slice_def StringRef_ptr_len_def Let_def unat_min)

lemma slice_Length:
  "unat (Length (StringRef_slice v Start End)) =
   min (max (min (unat Start) (unat (Length v))) (unat End)) (unat (Length v))
     - min (unat Start) (unat (Length v))"
proof -
  let ?S = "min Start (Length v)"
  let ?E = "min (max ?S End) (Length v)"
  have "?S \<le> ?E" by simp
  then have "unat (?E - ?S) = unat ?E - unat ?S" by (rule unat_sub)
  then show ?thesis
    by (simp add: StringRef_slice_def StringRef_ptr_len_def Let_def unat_min unat_max)
qed

lemma slice_bytes:
  "StringRef_bytes m (StringRef_slice v Start End) =
   take (unat End - unat Start) (drop (unat Start) (StringRef_bytes m v))"
proof (rule nth_equalityI)
  show "length (StringRef_bytes m (StringRef_slice v Start End)) =
      length (take (unat End - unat Start) (drop (unat Start) (StringRef_bytes m v)))"
    by (simp add: length_bytes slice_Length)
next
  fix i
  assume "i < length (StringRef_bytes m (StringRef_slice v Start End))"
  then have i: "i < min (max (min (unat Start) (unat (Length v))) (unat End)) (unat (Length v))
     - min (unat Start) (unat (Length v))"
    by (simp add: length_bytes slice_Length)
  then have s: "unat Start < unat (Length v)" "unat Start + i < unat (Length v)"
    "i < unat End - unat Start"
    by arith+
  from i s show "StringRef_bytes m (StringRef_slice v Start End) ! i =
      take (unat End - unat Start) (drop (unat Start) (StringRef_bytes m v)) ! i"
    by (simp add: bytes_upt slice_Length slice_Data min_def add.assoc)
qed

lemma in_bytes_index:
  assumes "C \<in> set (StringRef_bytes m v)"
  shows "\<exists>i. StringRef_index m v i = Inr C"
proof -
  from assms obtain k where k: "k < length (StringRef_bytes m v)" "StringRef_bytes m v ! k = C"
    by (auto simp: in_set_conv_nth)
  then have kl: "k < unat (Length v)" by (simp add: length_bytes)
  then have "k \<le> unat (Length v)" by simp
  then have u: "unat (of_nat k :: size_t) = k" by (rule le_unat_uoi)
  with k kl have "StringRef_index m v (of_nat k) = Inr C"
    by (simp add: index_iff word_less_nat_alt bytes_nth)
  then show ?thesis ..
qed

lemma split_found:
  assumes "C \<in> set (StringRef_bytes m v)"
  shows "\<exists>l r. StringRef_split m v C = (l, r) \<and>
    C \<notin> set (StringRef_bytes m l) \<and>
    StringRef_bytes m l @ C # StringRef_bytes m r = StringRef_bytes m v \<and>
    Data l = Data v \<and> Length l = StringRef_find m v C 0 \<and>
    Data r = Data v + unat (StringRef_find m v C 0) + 1 \<and>
    unat (Length l) + 1 + unat (Length r) = unat (Length v)"
proof -
  let ?xs = "StringRef_bytes m v"
  let ?Idx = "StringRef_find m v C 0"
  from in_bytes_index [OF assms] obtain j where "0 \<le> j \<and> StringRef_index m v j = Inr C"
    by auto
  from find_some [OF this]
  have ix: "StringRef_index m v ?Idx = Inr C"
    and least: "\<forall>i. 0 \<le> i \<and> StringRef_index m v i = Inr C \<longrightarrow> ?Idx \<le> i"
    by blast+
  from ix have lt: "?Idx < Length v" and at: "m (Data v + unat ?Idx) = C"
    by (simp_all add: index_iff)
  from lt have k: "unat ?Idx < unat (Length v)" by (simp add: word_less_nat_alt)
  have ne: "?Idx \<noteq> npos"
  proof
    assume "?Idx = npos"
    with lt npos_max [of "Length v"] show False by simp
  qed
  from k unat_le_npos [of "Length v"] have kn: "unat ?Idx < unat npos" by simp
  have "?Idx + 1 \<noteq> 0"
  proof
    assume "?Idx + 1 = 0"
    then have "?Idx = - 1" by (simp only: eq_neg_iff_add_eq_0)
    with ne show False by (simp add: npos_def)
  qed
  then have "1 + ?Idx \<noteq> 0" by (simp add: add.commute)
  then have "unat (1 + ?Idx) = Suc (unat ?Idx)" by (rule unatSuc)
  then have k1: "unat (?Idx + 1) = Suc (unat ?Idx)" by (simp add: add.commute)
  let ?l = "StringRef_slice v 0 ?Idx"
  let ?r = "StringRef_slice v (?Idx + 1) npos"
  from ne have sp: "StringRef_split m v C = (?l, ?r)"
    by (simp add: StringRef_split_def Let_def)
  have bl: "StringRef_bytes m ?l = take (unat ?Idx) ?xs"
    by (simp add: slice_bytes)
  have "length (drop (Suc (unat ?Idx)) ?xs) \<le> unat npos - Suc (unat ?Idx)"
    using unat_le_npos [of "Length v"] by (simp add: length_bytes)
  then have br: "StringRef_bytes m ?r = drop (Suc (unat ?Idx)) ?xs"
    by (simp add: slice_bytes k1)
  from k at have nth: "?xs ! unat ?Idx = C" by (simp add: bytes_nth)
  from k have "unat ?Idx < length ?xs" by (simp add: length_bytes)
  then have "take (unat ?Idx) ?xs @ ?xs ! unat ?Idx # drop (Suc (unat ?Idx)) ?xs = ?xs"
    by (rule id_take_nth_drop [symmetric])
  with nth bl br have cat: "StringRef_bytes m ?l @ C # StringRef_bytes m ?r = ?xs" by simp
  have notin: "C \<notin> set (StringRef_bytes m ?l)"
  proof
    assume "C \<in> set (StringRef_bytes m ?l)"
    then obtain i where i: "i < unat ?Idx" "i < length ?xs" "?xs ! i = C"
      by (auto simp: bl in_set_conv_nth)
    from i(1) k have "i \<le> unat (Length v)" by simp
    then have u: "unat (of_nat i :: size_t) = i" by (rule le_unat_uoi)
    with i k have "StringRef_index m v (of_nat i) = Inr C"
      by (simp add: index_iff word_less_nat_alt bytes_nth)
    with least have "?Idx \<le> of_nat i" by simp
    with u i(1) show False by (simp add: word_le_nat_alt)
  qed
  have dl: "Data ?l = Data v" by (simp add: slice_Data)
  from lt have "?Idx \<le> Length v" by simp
  then have ll: "Length ?l = ?Idx"
    by (simp add: StringRef_slice_def StringRef_ptr_len_def Let_def min_def max_def)
  have dr: "Data ?r = Data v + unat ?Idx + 1"
    using k by (simp add: slice_Data k1)
  from cat have "length (StringRef_bytes m ?l @ C # StringRef_bytes m ?r) = length ?xs" by simp
  then have len: "unat (Length ?l) + 1 + unat (Length ?r) = unat (Length v)"
    by (simp add: length_bytes)
  from sp notin cat dl ll dr len show ?thesis by blast
qed

lemma split_not_found:
  assumes "C \<notin> set (StringRef_bytes m v)"
  shows "StringRef_split m v C = (v, StringRef_default)"
proof -
  from assms have "\<not> (\<exists>i. 0 \<le> i \<and> StringRef_index m v i = Inr C)"
    by (auto dest: index_in_bytes)
  then have "StringRef_find m v C 0 = npos" by (rule find_none)
  then show ?thesis by (simp add: StringRef_split_def)
qed

text \<open>
  C4. \<^verbatim>\<open>split(C)\<close> returns a pair \<open>(l, r)\<close>. When \<open>C\<close> occurs in the view, \<open>l\<close>
  holds no \<open>C\<close> and the bytes of \<open>l\<close>, then \<open>C\<close>, then the bytes of \<open>r\<close> are the
  bytes of the view: \<open>l\<close> is everything before the first occurrence and \<open>r\<close>
  everything after it. When \<open>C\<close> does not occur, \<open>l\<close> is the view itself and
  \<open>r\<close> is the default-constructed, empty view.
\<close>

theorem StringRef_split_around_first:
  "(C \<in> set (StringRef_bytes m s) \<longrightarrow>
      (\<exists>l r. StringRef_split m s C = (l, r) \<and>
         C \<notin> set (StringRef_bytes m l) \<and>
         StringRef_bytes m l @ [C] @ StringRef_bytes m r = StringRef_bytes m s \<and>
         StringRef_bytes m l = takeWhile (\<lambda>x. x \<noteq> C) (StringRef_bytes m s) \<and>
         StringRef_bytes m r = tl (dropWhile (\<lambda>x. x \<noteq> C) (StringRef_bytes m s)))) \<and>
   (C \<notin> set (StringRef_bytes m s) \<longrightarrow>
      StringRef_split m s C = (s, StringRef_default) \<and>
      StringRef_empty StringRef_default \<and> StringRef_bytes m StringRef_default = [])"
proof (intro conjI impI)
  assume "C \<in> set (StringRef_bytes m s)"
  from split_found [OF this] obtain l r where sp: "StringRef_split m s C = (l, r)"
    and notin: "C \<notin> set (StringRef_bytes m l)"
    and cat: "StringRef_bytes m l @ C # StringRef_bytes m r = StringRef_bytes m s"
    by blast
  from notin have all: "\<forall>x\<in>set (StringRef_bytes m l). x \<noteq> C" by blast
  have "takeWhile (\<lambda>x. x \<noteq> C) (StringRef_bytes m l @ C # StringRef_bytes m r) =
      StringRef_bytes m l"
    using all by (simp add: takeWhile_append2)
  then have tw: "StringRef_bytes m l = takeWhile (\<lambda>x. x \<noteq> C) (StringRef_bytes m s)"
    by (simp only: cat)
  have "dropWhile (\<lambda>x. x \<noteq> C) (StringRef_bytes m l @ C # StringRef_bytes m r) =
      C # StringRef_bytes m r"
    using all by (simp add: dropWhile_append2)
  then have "dropWhile (\<lambda>x. x \<noteq> C) (StringRef_bytes m s) = C # StringRef_bytes m r"
    by (simp only: cat)
  then have dw: "StringRef_bytes m r = tl (dropWhile (\<lambda>x. x \<noteq> C) (StringRef_bytes m s))"
    by simp
  from cat have "StringRef_bytes m l @ [C] @ StringRef_bytes m r = StringRef_bytes m s"
    by simp
  with sp notin tw dw
  show "\<exists>l r. StringRef_split m s C = (l, r) \<and>
      C \<notin> set (StringRef_bytes m l) \<and>
      StringRef_bytes m l @ [C] @ StringRef_bytes m r = StringRef_bytes m s \<and>
      StringRef_bytes m l = takeWhile (\<lambda>x. x \<noteq> C) (StringRef_bytes m s) \<and>
      StringRef_bytes m r = tl (dropWhile (\<lambda>x. x \<noteq> C) (StringRef_bytes m s))"
    by blast
next
  assume "C \<notin> set (StringRef_bytes m s)"
  then show "StringRef_split m s C = (s, StringRef_default)" by (rule split_not_found)
next
  show "StringRef_empty StringRef_default"
    by (simp add: StringRef_empty_def StringRef_default_def)
next
  show "StringRef_bytes m StringRef_default = []"
    by (simp add: bytes_upt StringRef_default_def)
qed

text \<open>\<^verbatim>\<open>"hello world"\<close> split at the space, and at \<^verbatim>\<open>'z'\<close>, which it does not hold.\<close>

theorem StringRef_split_around_first_witness:
  "CHR '' '' \<in> set (StringRef_bytes literal_memory \<lparr>Data = 10, Length = 11\<rparr>) \<and>
   StringRef_split literal_memory \<lparr>Data = 10, Length = 11\<rparr> CHR '' '' =
     (\<lparr>Data = 10, Length = 5\<rparr>, \<lparr>Data = 16, Length = 5\<rparr>) \<and>
   StringRef_bytes literal_memory \<lparr>Data = 10, Length = 5\<rparr> = ''hello'' \<and>
   StringRef_bytes literal_memory \<lparr>Data = 16, Length = 5\<rparr> = ''world'' \<and>
   StringRef_bytes literal_memory \<lparr>Data = 10, Length = 5\<rparr> @ [CHR '' ''] @
     StringRef_bytes literal_memory \<lparr>Data = 16, Length = 5\<rparr> = ''hello world'' \<and>
   CHR ''z'' \<notin> set (StringRef_bytes literal_memory \<lparr>Data = 10, Length = 11\<rparr>) \<and>
   StringRef_split literal_memory \<lparr>Data = 10, Length = 11\<rparr> CHR ''z'' =
     (\<lparr>Data = 10, Length = 11\<rparr>, StringRef_default)"
proof -
  let ?v = "\<lparr>Data = 10, Length = 11\<rparr>"
  have bs: "StringRef_bytes literal_memory ?v = ''hello world''" by code_simp
  have sp: "StringRef_split literal_memory ?v CHR '' '' =
      (\<lparr>Data = 10, Length = 5\<rparr>, \<lparr>Data = 16, Length = 5\<rparr>)" by code_simp
  have bl: "StringRef_bytes literal_memory \<lparr>Data = 10, Length = 5\<rparr> = ''hello''"
    and br: "StringRef_bytes literal_memory \<lparr>Data = 16, Length = 5\<rparr> = ''world''"
    by code_simp+
  have h1: "CHR '' '' \<in> set (StringRef_bytes literal_memory ?v)" by (simp add: bs)
  have h2: "CHR ''z'' \<notin> set (StringRef_bytes literal_memory ?v)" by (simp add: bs)
  from StringRef_split_around_first [of "CHR '' ''" literal_memory ?v] h1 sp
  have "StringRef_bytes literal_memory \<lparr>Data = 10, Length = 5\<rparr> @ [CHR '' ''] @
      StringRef_bytes literal_memory \<lparr>Data = 16, Length = 5\<rparr> =
      StringRef_bytes literal_memory ?v"
    by auto
  then have cat: "StringRef_bytes literal_memory \<lparr>Data = 10, Length = 5\<rparr> @ [CHR '' ''] @
      StringRef_bytes literal_memory \<lparr>Data = 16, Length = 5\<rparr> = ''hello world''"
    by (simp only: bs)
  from StringRef_split_around_first [of "CHR ''z''" literal_memory ?v] h2
  have nf: "StringRef_split literal_memory ?v CHR ''z'' = (?v, StringRef_default)"
    by blast
  from h1 sp bl br cat h2 nf show ?thesis by blast
qed

subsection \<open>copy\<close>

lemma std_copy_other:
  "a < dst \<or> dst + n \<le> a \<Longrightarrow> std_copy m src n dst a = m a"
  by (induction n arbitrary: m src dst) auto

lemma std_copy_dest:
  "dst + n \<le> src \<or> src + n \<le> dst \<Longrightarrow> i < n \<Longrightarrow>
   std_copy m src n dst (dst + i) = m (src + i)"
proof (induction n arbitrary: m src dst i)
  case 0
  then show ?case by simp
next
  case (Suc n)
  show ?case
  proof (cases i)
    case 0
    then show ?thesis by (simp add: std_copy_other)
  next
    case (Suc k)
    with Suc.prems have k: "k < n" by simp
    from Suc.prems have "Suc dst + n \<le> Suc src \<or> Suc src + n \<le> Suc dst" by auto
    from Suc.IH [OF this k, of "m(dst := m src)"]
    have "std_copy (m(dst := m src)) (Suc src) n (Suc dst) (Suc dst + k) =
        (m(dst := m src)) (Suc src + k)" .
    moreover from Suc.prems k have "Suc src + k \<noteq> dst" by auto
    ultimately show ?thesis using Suc by simp
  qed
qed


lemma copy_nonempty:
  assumes ne: "\<not> StringRef_empty s"
    and al: "Allocate a (StringRef_size s) = (S, a')"
    and fresh: "S + unat (Length s) \<le> Data s \<or> Data s + unat (Length s) \<le> S"
  shows "\<exists>m'. StringRef_copy Allocate a m s = (\<lparr>Data = S, Length = Length s\<rparr>, m', a') \<and>
    StringRef_bytes m' \<lparr>Data = S, Length = Length s\<rparr> = StringRef_bytes m s \<and>
    StringRef_bytes m' s = StringRef_bytes m s \<and>
    S \<noteq> StringRef_data s \<and>
    (\<forall>x. x < S \<or> S + unat (Length s) \<le> x \<longrightarrow> m' x = m x)"
proof -
  let ?n = "unat (Length s)"
  define m' where "m' = std_copy m (Data s) ?n S"
  from ne have pos: "0 < ?n" by (simp add: StringRef_empty_def unat_gt_0)
  from ne al have cp: "StringRef_copy Allocate a m s = (\<lparr>Data = S, Length = Length s\<rparr>, m', a')"
    by (simp add: StringRef_copy_def StringRef_size_def StringRef_begin_def StringRef_end_def
        StringRef_ptr_len_def m'_def)
  have dest: "m' (S + i) = m (Data s + i)" if "i < ?n" for i
    unfolding m'_def using fresh that by (rule std_copy_dest)
  have other: "m' x = m x" if "x < S \<or> S + ?n \<le> x" for x
    unfolding m'_def using that by (rule std_copy_other)
  have b1: "StringRef_bytes m' \<lparr>Data = S, Length = Length s\<rparr> = StringRef_bytes m s"
    by (simp add: bytes_upt dest)
  have "m' (Data s + i) = m (Data s + i)" if "i < ?n" for i
    using fresh that by (intro other) auto
  then have b2: "StringRef_bytes m' s = StringRef_bytes m s"
    by (simp add: bytes_upt)
  from fresh pos have ne': "S \<noteq> StringRef_data s" by (auto simp: StringRef_data_def)
  from cp b1 b2 ne' other show ?thesis by blast
qed

text \<open>
  C8. On a non-empty view \<^verbatim>\<open>copy(A)\<close> calls \<^verbatim>\<open>A.Allocate<char>(size())\<close> once;
  when the block it gets does not overlap the bytes of the view (it is
  freshly allocated), the result is the view of that block with the length of
  the source, its bytes afterwards are the bytes of the source, its pointer
  differs from the pointer of the source, and memory outside the block is
  unchanged, so the source still reads the same. On an empty view the result
  is the default-constructed view, and memory and allocator are as before
  whatever the allocator would do: it is not called.
\<close>

theorem StringRef_copy_fresh_block:
  "(\<not> StringRef_empty s \<and> Allocate a (StringRef_size s) = (S, a') \<and>
    (S + unat (Length s) \<le> Data s \<or> Data s + unat (Length s) \<le> S) \<longrightarrow>
      (\<exists>m'. StringRef_copy Allocate a m s = (\<lparr>Data = S, Length = Length s\<rparr>, m', a') \<and>
         StringRef_bytes m' \<lparr>Data = S, Length = Length s\<rparr> = StringRef_bytes m s \<and>
         StringRef_bytes m' s = StringRef_bytes m s \<and>
         S \<noteq> StringRef_data s \<and>
         (\<forall>x. x < S \<or> S + unat (Length s) \<le> x \<longrightarrow> m' x = m x))) \<and>
   (StringRef_empty s \<longrightarrow>
      StringRef_copy Allocate a m s = (StringRef_default, m, a) \<and>
      StringRef_empty StringRef_default)"
proof (intro conjI impI)
  assume "\<not> StringRef_empty s \<and> Allocate a (StringRef_size s) = (S, a') \<and>
    (S + unat (Length s) \<le> Data s \<or> Data s + unat (Length s) \<le> S)"
  then show "\<exists>m'. StringRef_copy Allocate a m s = (\<lparr>Data = S, Length = Length s\<rparr>, m', a') \<and>
      StringRef_bytes m' \<lparr>Data = S, Length = Length s\<rparr> = StringRef_bytes m s \<and>
      StringRef_bytes m' s = StringRef_bytes m s \<and>
      S \<noteq> StringRef_data s \<and>
      (\<forall>x. x < S \<or> S + unat (Length s) \<le> x \<longrightarrow> m' x = m x)"
    by (intro copy_nonempty) simp_all
next
  assume "StringRef_empty s"
  then show "StringRef_copy Allocate a m s = (StringRef_default, m, a)"
    by (simp add: StringRef_copy_def)
next
  show "StringRef_empty StringRef_default"
    by (simp add: StringRef_empty_def StringRef_default_def)
qed

text \<open>
  Copying \<^verbatim>\<open>"hello"\<close> into the bump allocator with 100 as its next free address;
  copying the empty view at the same place leaves the allocator at 100, though
  a call would have changed it.
\<close>

theorem StringRef_copy_fresh_block_witness:
  "(\<not> StringRef_empty \<lparr>Data = 22, Length = 5\<rparr> \<and>
    bump_Allocate 100 (StringRef_size \<lparr>Data = 22, Length = 5\<rparr>) = (100, 105) \<and>
    (100 + unat (Length \<lparr>Data = 22, Length = 5\<rparr>) \<le> Data \<lparr>Data = 22, Length = 5\<rparr> \<or>
     Data \<lparr>Data = 22, Length = 5\<rparr> + unat (Length \<lparr>Data = 22, Length = 5\<rparr>) \<le> 100)) \<and>
   (\<exists>m'. StringRef_copy bump_Allocate 100 literal_memory \<lparr>Data = 22, Length = 5\<rparr> =
            (\<lparr>Data = 100, Length = 5\<rparr>, m', 105) \<and>
         StringRef_bytes m' \<lparr>Data = 100, Length = 5\<rparr> = ''hello'' \<and>
         StringRef_bytes m' \<lparr>Data = 22, Length = 5\<rparr> = ''hello'') \<and>
   StringRef_empty \<lparr>Data = 22, Length = 0\<rparr> \<and>
   bump_Allocate 100 (StringRef_size \<lparr>Data = 22, Length = 0\<rparr>) \<noteq> (nullptr, 100) \<and>
   StringRef_copy bump_Allocate 100 literal_memory \<lparr>Data = 22, Length = 0\<rparr> =
     (StringRef_default, literal_memory, 100)"
proof -
  let ?s = "\<lparr>Data = 22, Length = 5\<rparr>"
  let ?e = "\<lparr>Data = 22, Length = 0\<rparr>"
  have h: "\<not> StringRef_empty ?s \<and> bump_Allocate 100 (StringRef_size ?s) = (100, 105) \<and>
      (100 + unat (Length ?s) \<le> Data ?s \<or> Data ?s + unat (Length ?s) \<le> 100)"
    by (simp add: StringRef_empty_def StringRef_size_def bump_Allocate_def)
  have bs: "StringRef_bytes literal_memory ?s = ''hello''" by code_simp
  from StringRef_copy_fresh_block [of ?s bump_Allocate 100 100 105 literal_memory] h
  obtain m' where "StringRef_copy bump_Allocate 100 literal_memory ?s =
        (\<lparr>Data = 100, Length = Length ?s\<rparr>, m', 105)"
      "StringRef_bytes m' \<lparr>Data = 100, Length = Length ?s\<rparr> = StringRef_bytes literal_memory ?s"
      "StringRef_bytes m' ?s = StringRef_bytes literal_memory ?s"
    by blast
  then have c1: "\<exists>m'. StringRef_copy bump_Allocate 100 literal_memory ?s =
        (\<lparr>Data = 100, Length = 5\<rparr>, m', 105) \<and>
      StringRef_bytes m' \<lparr>Data = 100, Length = 5\<rparr> = ''hello'' \<and>
      StringRef_bytes m' ?s = ''hello''"
    by (simp add: bs)
  have e: "StringRef_empty ?e" by (simp add: StringRef_empty_def)
  have ch: "bump_Allocate 100 (StringRef_size ?e) \<noteq> (nullptr, 100)"
    by (simp add: bump_Allocate_def nullptr_def)
  from StringRef_copy_fresh_block [of ?e bump_Allocate 100 _ _ literal_memory] e
  have c2: "StringRef_copy bump_Allocate 100 literal_memory ?e =
      (StringRef_default, literal_memory, 100)"
    by blast
  from h c1 e ch c2 show ?thesis by blast
qed

subsection \<open>Construction from a C string\<close>

lemma strlen_scan_Some:
  assumes "strlen_scan m p n = Some k"
  shows "m (p + k) = CHR 0x00"
proof (rule strlen_scan.raw_induct [where P = "\<lambda>m p n k. m (p + k) = CHR 0x00", OF _ assms])
  fix f :: "memory \<Rightarrow> addr \<Rightarrow> nat \<Rightarrow> nat option" and m p n k
  assume ih: "\<And>m p n k. f m p n = Some k \<Longrightarrow> m (p + k) = CHR 0x00"
    and step: "(if m (p + n) = CHR 0x00 then Some n else f m p (Suc n)) = Some k"
  show "m (p + k) = CHR 0x00"
  proof (cases "m (p + n) = CHR 0x00")
    case True
    with step show ?thesis by simp
  next
    case False
    with step have "f m p (Suc n) = Some k" by simp
    then show ?thesis by (rule ih)
  qed
qed

lemma strlen_scan_no_terminator:
  assumes "\<forall>x. m x \<noteq> CHR 0x00"
  shows "strlen_scan m p n = None"
proof (cases "strlen_scan m p n")
  case None
  then show ?thesis .
next
  case (Some k)
  then have "m (p + k) = CHR 0x00" by (rule strlen_scan_Some)
  with assms show ?thesis by blast
qed

lemma strlen_scan_terminates:
  "n \<le> k \<Longrightarrow> m (p + k) = CHR 0x00 \<Longrightarrow> \<exists>l. strlen_scan m p n = Some l"
proof (induction "k - n" arbitrary: n)
  case 0
  then have "n = k" by simp
  with 0 show ?case by (simp add: strlen_scan.simps [of m p k])
next
  case (Suc d)
  then have "d = k - Suc n" "Suc n \<le> k" by simp_all
  from Suc.hyps(1) [OF this Suc.prems(2)] obtain l where "strlen_scan m p (Suc n) = Some l" ..
  then show ?case by (simp add: strlen_scan.simps [of m p n])
qed

text \<open>
  C10. \<^verbatim>\<open>StringRef(const char *Str)\<close> on the null pointer returns the empty
  view, with null data and size 0, in every memory: also where \<^verbatim>\<open>strlen\<close>
  has no result, as on the null pointer itself or in a memory without any
  zero byte, where the scan never ends. On a pointer that is not null the
  length is what \<^verbatim>\<open>strlen\<close> returns, and the constructor returns whenever a
  terminator follows the pointer.
\<close>

theorem StringRef_cstr_null_is_empty:
  "StringRef_cstr m nullptr = Some StringRef_default \<and>
   StringRef_data StringRef_default = nullptr \<and>
   StringRef_size StringRef_default = 0 \<and>
   StringRef_empty StringRef_default \<and>
   StringRef_bytes m StringRef_default = [] \<and>
   strlen m nullptr = None \<and>
   ((\<forall>x. m x \<noteq> CHR 0x00) \<longrightarrow> strlen_scan m nullptr 0 = None) \<and>
   (Str \<noteq> nullptr \<longrightarrow>
      StringRef_cstr m Str = map_option (StringRef_ptr_len Str) (strlen m Str)) \<and>
   (Str \<noteq> nullptr \<and> m (Str + k) = CHR 0x00 \<longrightarrow>
      (\<exists>l. strlen m Str = Some l \<and> StringRef_cstr m Str = Some \<lparr>Data = Str, Length = l\<rparr>))"
proof (intro conjI impI)
  show "StringRef_cstr m nullptr = Some StringRef_default"
    by (simp add: StringRef_cstr_def StringRef_default_def)
  show "StringRef_data StringRef_default = nullptr"
    by (simp add: StringRef_data_def StringRef_default_def)
  show "StringRef_size StringRef_default = 0"
    by (simp add: StringRef_size_def StringRef_default_def)
  show "StringRef_empty StringRef_default"
    by (simp add: StringRef_empty_def StringRef_default_def)
  show "StringRef_bytes m StringRef_default = []"
    by (simp add: bytes_upt StringRef_default_def)
  show "strlen m nullptr = None"
    by (simp add: strlen_def)
next
  assume "\<forall>x. m x \<noteq> CHR 0x00"
  then show "strlen_scan m nullptr 0 = None" by (rule strlen_scan_no_terminator)
next
  assume "Str \<noteq> nullptr"
  then show "StringRef_cstr m Str = map_option (StringRef_ptr_len Str) (strlen m Str)"
    by (cases "strlen m Str") (simp_all add: StringRef_cstr_def StringRef_ptr_len_def)
next
  assume a: "Str \<noteq> nullptr \<and> m (Str + k) = CHR 0x00"
  then have "\<exists>l. strlen_scan m Str 0 = Some l"
    by (intro strlen_scan_terminates [of 0 k]) simp_all
  with a show "\<exists>l. strlen m Str = Some l \<and>
      StringRef_cstr m Str = Some \<lparr>Data = Str, Length = l\<rparr>"
    by (auto simp: strlen_def StringRef_cstr_def)
qed

text \<open>
  A memory of \<^verbatim>\<open>'a'\<close> bytes only has no terminator, yet the constructor returns
  on the null pointer; on the literal \<^verbatim>\<open>"hello"\<close> at 22 it scans five bytes.
\<close>

theorem StringRef_cstr_null_is_empty_witness:
  "(\<forall>x. (\<lambda>_. CHR ''a'') x \<noteq> CHR 0x00) \<and>
   strlen_scan (\<lambda>_. CHR ''a'') nullptr 0 = None \<and>
   StringRef_cstr (\<lambda>_. CHR ''a'') nullptr = Some StringRef_default \<and>
   ((22 :: addr) \<noteq> nullptr \<and> literal_memory (22 + 5) = CHR 0x00) \<and>
   strlen literal_memory 22 = Some 5 \<and>
   StringRef_cstr literal_memory 22 = Some \<lparr>Data = 22, Length = 5\<rparr>"
proof -
  have h1: "\<forall>x. (\<lambda>_. CHR ''a'') x \<noteq> CHR 0x00" by simp
  have h2: "(22 :: addr) \<noteq> nullptr" by (simp add: nullptr_def)
  have h3: "literal_memory (22 + 5) = CHR 0x00" by code_simp
  have sl: "strlen literal_memory 22 = Some 5" by code_simp
  note a = StringRef_cstr_null_is_empty [of "\<lambda>_. CHR ''a''" 22 5]
  note l = StringRef_cstr_null_is_empty [of literal_memory 22 5]
  from a h1 have c1: "strlen_scan (\<lambda>_. CHR ''a'') nullptr 0 = None"
    "StringRef_cstr (\<lambda>_. CHR ''a'') nullptr = Some StringRef_default"
    by blast+
  from l h2 have "StringRef_cstr literal_memory 22 =
      map_option (StringRef_ptr_len 22) (strlen literal_memory 22)"
    by blast
  then have c2: "StringRef_cstr literal_memory 22 = Some \<lparr>Data = 22, Length = 5\<rparr>"
    by (simp add: sl StringRef_ptr_len_def)
  from l h2 h3 have "\<exists>n. strlen literal_memory 22 = Some n \<and>
      StringRef_cstr literal_memory 22 = Some \<lparr>Data = 22, Length = n\<rparr>"
    by blast
  from h1 c1 h2 h3 sl c2 show ?thesis by blast
qed

end
